theory Spec2Isabelle
  imports Complex_Main "HOL-Library.Sublist" "HOL-Library.AList" "HOL-Library.Multiset"
begin

section \<open>The news fetcher of \<^verbatim>\<open>src/lib/functions/manager/fetch.manager.ts\<close>\<close>

text \<open>
  The module is one class, \<^verbatim>\<open>NewsFetcher\<close>: four fields, a URL builder, a validating
  setter, one fetch and ten queries over the fetched array.

  Conventions of the embedding.
  \<^item> The day, the month and the year are JavaScript numbers, and the class accepts every
    number: they are values of the type \<open>number\<close> below, which has the finite numbers,
    NaN and the two infinities. A count in a \<^verbatim>\<open>Map\<close> and the limit of a query are
    integers (\<^typ>\<open>int\<close>).
  \<^item> A string is a \<^typ>\<open>string\<close>, a character standing for the UTF-16 code unit of its
    code (0 to 255, the Latin-1 characters).
  \<^item> \<^verbatim>\<open>undefined\<close> is \<^term>\<open>None\<close>.
  \<^item> A method that can throw returns a sum, \<^term>\<open>Inl\<close> carrying the thrown value;
    \<open>setDate\<close> and the queries return the instance after the call next to their
    result. An \<^verbatim>\<open>async\<close> method is modelled by the value its promise settles with:
    \<^term>\<open>Inr\<close> for a fulfilled promise, \<^term>\<open>Inl\<close> for a rejected one.
  \<^item> The network (\<^verbatim>\<open>fetch\<close>), the platform's date parser and the platform's printing
    of the numbers that are not safe integers are parameters.
  \<^item> Output on \<^verbatim>\<open>console.error\<close> is not modelled.
\<close>

subsection \<open>Numbers\<close>

text \<open>
  A finite number is the rational it denotes. Every finite double is one; the definitions
  and the theorems range over all rationals. Negative zero is not told from zero, which
  no operation of the class does either.
\<close>

datatype number = Finite rat | NaN | PosInfinity | NegInfinity

text \<open>The relational operators \<^verbatim>\<open><\<close> and \<^verbatim>\<open>>\<close>: false as soon as one side is NaN.\<close>

fun number_lt :: "number \<Rightarrow> number \<Rightarrow> bool" where
  "number_lt NaN y = False"
| "number_lt x NaN = False"
| "number_lt (Finite a) (Finite b) = (a < b)"
| "number_lt (Finite a) PosInfinity = True"
| "number_lt (Finite a) NegInfinity = False"
| "number_lt PosInfinity y = False"
| "number_lt NegInfinity (Finite b) = True"
| "number_lt NegInfinity PosInfinity = True"
| "number_lt NegInfinity NegInfinity = False"

definition number_gt :: "number \<Rightarrow> number \<Rightarrow> bool" where
  "number_gt x y = number_lt y x"

text \<open>
  The operator \<^verbatim>\<open>-\<close>. On finite numbers the model subtracts exactly, where the code
  rounds the difference to the nearest double. The class subtracts only 1, from the month,
  to index the twelve month names, and there the rounding changes nothing: for a double
  \<open>x\<close> from \<open>1/2\<close> to 13 the difference \<open>x - 1\<close> is a double; for \<open>x < 1/2\<close> both the
  exact and the rounded difference are at most \<open>- 1/2\<close>, and for \<open>x > 13\<close> both are at
  least 12, so neither is an index.
\<close>

fun number_minus :: "number \<Rightarrow> number \<Rightarrow> number" where
  "number_minus NaN y = NaN"
| "number_minus x NaN = NaN"
| "number_minus (Finite a) (Finite b) = Finite (a - b)"
| "number_minus (Finite a) PosInfinity = NegInfinity"
| "number_minus (Finite a) NegInfinity = PosInfinity"
| "number_minus PosInfinity PosInfinity = NaN"
| "number_minus PosInfinity y = PosInfinity"
| "number_minus NegInfinity NegInfinity = NaN"
| "number_minus NegInfinity y = NegInfinity"

definition is_integer :: "rat \<Rightarrow> bool" where
  "is_integer q = (of_int \<lfloor>q\<rfloor> = q)"

text \<open>\<^verbatim>\<open>Number.isSafeInteger\<close>: an integer of magnitude at most \<open>2^53 - 1\<close>.\<close>

definition isSafeInteger :: "number \<Rightarrow> bool" where
  "isSafeInteger x =
     (case x of Finite q \<Rightarrow> is_integer q \<and> \<bar>q\<bar> \<le> 2 ^ 53 - 1 | _ \<Rightarrow> False)"

definition digit_char :: "nat \<Rightarrow> char" where
  "digit_char d = ''0123456789'' ! d"

fun nat_digits :: "nat \<Rightarrow> string" where
  "nat_digits n =
     (if n < 10 then [digit_char n] else nat_digits (n div 10) @ [digit_char (n mod 10)])"

declare nat_digits.simps [simp del]

text \<open>The decimal digits of an integer, with a minus sign when it is negative.\<close>

definition decimal :: "int \<Rightarrow> string" where
  "decimal n = (if n < 0 then CHR ''-'' # nat_digits (nat (- n)) else nat_digits (nat n))"

text \<open>
  \<^verbatim>\<open>x.toString()\<close> and the conversion of a number inside a template literal. A safe
  integer prints as its decimal digits. Any other finite number prints as the shortest
  digits that read back as the same double, in exponent notation from \<open>10^21\<close> on: that is
  a matter of the double format and of the platform, and it is the parameter \<open>print\<close>.
\<close>

definition Number_toString :: "(rat \<Rightarrow> string) \<Rightarrow> number \<Rightarrow> string" where
  "Number_toString print x =
     (case x of
        NaN \<Rightarrow> ''NaN''
      | PosInfinity \<Rightarrow> ''Infinity''
      | NegInfinity \<Rightarrow> ''-Infinity''
      | Finite q \<Rightarrow> if isSafeInteger (Finite q) then decimal \<lfloor>q\<rfloor> else print q)"

subsection \<open>Data model\<close>

record Author =
  name :: string

record Image =
  url :: string

record NewsItemBody =
  title :: string
  description :: string
  links :: "string list"
  categories :: "string list"
  source :: string
  authors :: "Author list"
  image :: Image
  published :: string

record NewsItem =
  hash :: string
  item :: NewsItemBody

record NewsFetcher =
  baseUrl :: string
  month :: number
  year :: number
  date :: number

datatype js_error = Error string

text \<open>The constructor stores its four arguments as they come.\<close>

definition NewsFetcher_new :: "string \<Rightarrow> number \<Rightarrow> number \<Rightarrow> number \<Rightarrow> NewsFetcher" where
  "NewsFetcher_new baseUrl' date' month' year' =
     \<lparr>baseUrl = baseUrl', month = month', year = year', date = date'\<rparr>"

definition monthNames :: "string list" where
  "monthNames =
     [''January'', ''February'', ''March'', ''April'', ''May'', ''June'',
      ''July'', ''August'', ''September'', ''October'', ''November'', ''December'']"

subsection \<open>The pieces of the JavaScript runtime that the class uses\<close>

text \<open>
  \<^verbatim>\<open>s.padStart(targetLength, padString)\<close>: a string that is long enough, or an empty
  filler, gives \<open>s\<close> back; otherwise the filler is repeated and cut to the missing length.
\<close>

definition padStart :: "string \<Rightarrow> nat \<Rightarrow> string \<Rightarrow> string" where
  "padStart s targetLength padString =
     (if targetLength \<le> length s \<or> padString = [] then s
      else take (targetLength - length s)
             (concat (replicate (targetLength - length s) padString)) @ s)"

text \<open>
  \<^verbatim>\<open>xs[i]\<close> for a number \<open>i\<close>: the element when \<open>i\<close> is an integer from 0 to the length
  less one, \<^verbatim>\<open>undefined\<close> for every other number (a fraction, a negative number, NaN
  and the infinities name no element).
\<close>

definition Array_get :: "'a list \<Rightarrow> number \<Rightarrow> 'a option" where
  "Array_get xs i =
     (case i of
        Finite q \<Rightarrow>
          if is_integer q \<and> 0 \<le> q \<and> q < of_nat (length xs) then Some (xs ! nat \<lfloor>q\<rfloor>)
          else None
      | _ \<Rightarrow> None)"

text \<open>A value of type \<^verbatim>\<open>string | undefined\<close> inside a template literal.\<close>

definition template_string :: "string option \<Rightarrow> string" where
  "template_string v = (case v of None \<Rightarrow> ''undefined'' | Some s \<Rightarrow> s)"

subsection \<open>\<^verbatim>\<open>createUrl\<close> and \<^verbatim>\<open>setDate\<close>\<close>

definition createUrl :: "(rat \<Rightarrow> string) \<Rightarrow> NewsFetcher \<Rightarrow> string" where
  "createUrl print this =
     (let monthString = Array_get monthNames (number_minus (month this) (Finite 1));
          paddedDate = padStart (Number_toString print (date this)) 2 ''0'';
          paddedMonth = padStart (Number_toString print (month this)) 2 ''0''
      in baseUrl this @ ''/'' @ template_string monthString @ ''-''
           @ Number_toString print (year this) @ ''/'' @ paddedDate @ ''-'' @ paddedMonth
           @ ''-'' @ Number_toString print (year this) @ ''.json'')"

text \<open>
  The three guards throw before the first assignment; the instance that a throw leaves
  behind is the one the statement started from.
\<close>

definition setDate :: "number \<Rightarrow> number \<Rightarrow> number \<Rightarrow> NewsFetcher \<Rightarrow> (js_error + unit) \<times> NewsFetcher" where
  "setDate d m y this =
     (if number_lt d (Finite 1) \<or> number_gt d (Finite 31)
        then (Inl (Error ''Invalid date''), this)
      else if number_lt m (Finite 1) \<or> number_gt m (Finite 12)
        then (Inl (Error ''Invalid month''), this)
      else if number_lt y (Finite 2000) \<or> number_gt y (Finite 2100)
        then (Inl (Error ''Invalid year''), this)
      else (Inr (), this\<lparr>date := d, month := m, year := y\<rparr>))"

subsection \<open>The specification's words\<close>

text \<open>
  A number lies in a range when it is a finite number between the two bounds; NaN and
  the infinities lie in no range. \<open>integer_in\<close> adds that the number is an integer and
  gives it.
\<close>

definition in_range :: "rat \<Rightarrow> rat \<Rightarrow> number \<Rightarrow> bool" where
  "in_range lo hi x = (case x of Finite q \<Rightarrow> lo \<le> q \<and> q \<le> hi | _ \<Rightarrow> False)"

definition integer_in :: "int \<Rightarrow> int \<Rightarrow> number \<Rightarrow> int option" where
  "integer_in lo hi x =
     (case x of
        Finite q \<Rightarrow> if is_integer q \<and> lo \<le> \<lfloor>q\<rfloor> \<and> \<lfloor>q\<rfloor> \<le> hi then Some \<lfloor>q\<rfloor> else None
      | _ \<Rightarrow> None)"

definition integer_of :: "number \<Rightarrow> int option" where
  "integer_of x = (case x of Finite q \<Rightarrow> if is_integer q then Some \<lfloor>q\<rfloor> else None | _ \<Rightarrow> None)"

text \<open>
  The URL format. The two-digit rendering of a number exists for the integers 0 to 99
  only, a month name is selected for the integers 1 to 12 only, and the year is written
  in decimal digits; \<open>createUrl_spec\<close> is \<^term>\<open>None\<close> where the described string does
  not exist.
\<close>

definition two_digits :: "number \<Rightarrow> string option" where
  "two_digits x =
     (case integer_in 0 99 x of
        Some n \<Rightarrow> Some [digit_char (nat n div 10), digit_char (nat n mod 10)]
      | None \<Rightarrow> None)"

definition month_name :: "number \<Rightarrow> string option" where
  "month_name x =
     (case integer_in 1 12 x of Some m \<Rightarrow> Some (monthNames ! nat (m - 1)) | None \<Rightarrow> None)"

definition createUrl_spec :: "NewsFetcher \<Rightarrow> string option" where
  "createUrl_spec this =
     (case (month_name (month this), two_digits (date this), two_digits (month this),
            integer_of (year this)) of
        (Some MonthName, Some DD, Some MM, Some y) \<Rightarrow>
          Some (baseUrl this @ ''/'' @ MonthName @ ''-'' @ decimal y @ ''/''
                  @ DD @ ''-'' @ MM @ ''-'' @ decimal y @ ''.json'')
      | _ \<Rightarrow> None)"

text \<open>
  What \<open>createUrl\<close> appends to the base URL when the month lookup gives
  \<^verbatim>\<open>undefined\<close>.
\<close>

definition undefined_url_tail :: "(rat \<Rightarrow> string) \<Rightarrow> NewsFetcher \<Rightarrow> string" where
  "undefined_url_tail print this =
     ''/undefined-'' @ Number_toString print (year this) @ ''/''
       @ padStart (Number_toString print (date this)) 2 ''0'' @ ''-''
       @ padStart (Number_toString print (month this)) 2 ''0'' @ ''-''
       @ Number_toString print (year this) @ ''.json''"

subsection \<open>Strings, sets, maps and arrays of the runtime\<close>

text \<open>
  \<^verbatim>\<open>toLowerCase\<close> on the Latin-1 characters. The capital letters among them are
  \<open>A\<close> to \<open>Z\<close> and the accented capitals of the codes C0 to D6 and D8 to DE; the
  small letter of each stands 32 places above it. Every other character is kept.
\<close>

definition capital_letters :: string where
  "capital_letters =
     ''ABCDEFGHIJKLMNOPQRSTUVWXYZ'' @
       [CHR 0xC0, CHR 0xC1, CHR 0xC2, CHR 0xC3, CHR 0xC4, CHR 0xC5, CHR 0xC6, CHR 0xC7,
        CHR 0xC8, CHR 0xC9, CHR 0xCA, CHR 0xCB, CHR 0xCC, CHR 0xCD, CHR 0xCE, CHR 0xCF,
        CHR 0xD0, CHR 0xD1, CHR 0xD2, CHR 0xD3, CHR 0xD4, CHR 0xD5, CHR 0xD6, CHR 0xD8,
        CHR 0xD9, CHR 0xDA, CHR 0xDB, CHR 0xDC, CHR 0xDD, CHR 0xDE]"

definition small_letters :: string where
  "small_letters =
     ''abcdefghijklmnopqrstuvwxyz'' @
       [CHR 0xE0, CHR 0xE1, CHR 0xE2, CHR 0xE3, CHR 0xE4, CHR 0xE5, CHR 0xE6, CHR 0xE7,
        CHR 0xE8, CHR 0xE9, CHR 0xEA, CHR 0xEB, CHR 0xEC, CHR 0xED, CHR 0xEE, CHR 0xEF,
        CHR 0xF0, CHR 0xF1, CHR 0xF2, CHR 0xF3, CHR 0xF4, CHR 0xF5, CHR 0xF6, CHR 0xF8,
        CHR 0xF9, CHR 0xFA, CHR 0xFB, CHR 0xFC, CHR 0xFD, CHR 0xFE]"

definition char_toLowerCase :: "char \<Rightarrow> char" where
  "char_toLowerCase c =
     (case map_of (zip capital_letters small_letters) c of Some l \<Rightarrow> l | None \<Rightarrow> c)"

definition toLowerCase :: "string \<Rightarrow> string" where
  "toLowerCase s = map char_toLowerCase s"

text \<open>\<^verbatim>\<open>s.includes(t)\<close>: \<open>t\<close> occurs in \<open>s\<close> as a contiguous piece.\<close>

fun String_includes :: "string \<Rightarrow> string \<Rightarrow> bool" where
  "String_includes [] t = (t = [])"
| "String_includes (c # cs) t = (prefix t (c # cs) \<or> String_includes cs t)"

text \<open>
  A \<^verbatim>\<open>Set\<close> keeps its members in the order of their first insertion; the list is the
  set's iteration order, which \<^verbatim>\<open>Array.from\<close> copies.
\<close>

definition Set_add :: "'a \<Rightarrow> 'a list \<Rightarrow> 'a list" where
  "Set_add x s = (if x \<in> set s then s else s @ [x])"

definition Set_new :: "'a list \<Rightarrow> 'a list" where
  "Set_new xs = foldl (\<lambda>s x. Set_add x s) [] xs"

text \<open>
  A \<^verbatim>\<open>Map\<close> is the list of its entries in insertion order: \<^verbatim>\<open>set\<close> on a key that is
  present replaces the value where the entry stands, on a new key it appends.
\<close>

definition Map_get :: "('k \<times> 'v) list \<Rightarrow> 'k \<Rightarrow> 'v option" where
  "Map_get m k = map_of m k"

definition Map_set :: "'k \<Rightarrow> 'v \<Rightarrow> ('k \<times> 'v) list \<Rightarrow> ('k \<times> 'v) list" where
  "Map_set k v m = AList.update k v m"

text \<open>\<^verbatim>\<open>v || 0\<close> on a number or \<^verbatim>\<open>undefined\<close>: both \<^verbatim>\<open>undefined\<close> and 0 are falsy.\<close>

definition or_zero :: "int option \<Rightarrow> int" where
  "or_zero v = (case v of None \<Rightarrow> 0 | Some n \<Rightarrow> if n = 0 then 0 else n)"

text \<open>The body both counting loops share: \<^verbatim>\<open>m.set(k, (m.get(k) || 0) + 1)\<close>.\<close>

definition count_key :: "('k \<times> int) list \<Rightarrow> 'k \<Rightarrow> ('k \<times> int) list" where
  "count_key m k = Map_set k (or_zero (Map_get m k) + 1) m"

text \<open>
  \<^verbatim>\<open>xs.sort(cmp)\<close>. The language fixes the result for a comparator that is a consistent
  ordering: the elements in ascending order of \<open>cmp\<close>, elements that compare equal in
  their original order. Insertion from the right computes that list: an element goes in
  front of the first element it does not compare greater than. With a comparator that is
  not consistent the language leaves the order to the implementation; the model then
  gives the order of this insertion, which need not be the order a given platform gives.
\<close>

fun sort_insert :: "('a \<Rightarrow> 'a \<Rightarrow> int) \<Rightarrow> 'a \<Rightarrow> 'a list \<Rightarrow> 'a list" where
  "sort_insert cmp x [] = [x]"
| "sort_insert cmp x (y # ys) =
     (if cmp x y \<le> 0 then x # y # ys else y # sort_insert cmp x ys)"

definition Array_sort :: "('a \<Rightarrow> 'a \<Rightarrow> int) \<Rightarrow> 'a list \<Rightarrow> 'a list" where
  "Array_sort cmp xs = foldr (sort_insert cmp) xs []"

text \<open>\<^verbatim>\<open>xs.slice(start, end)\<close> on integers: a negative bound counts from the end.\<close>

definition Array_slice :: "'a list \<Rightarrow> int \<Rightarrow> int \<Rightarrow> 'a list" where
  "Array_slice xs start endIndex =
     (let len = int (length xs);
          k = (if start < 0 then max (len + start) 0 else min start len);
          final = (if endIndex < 0 then max (len + endIndex) 0 else min endIndex len)
      in take (nat (final - k)) (drop (nat k) xs))"

text \<open>
  A \<^verbatim>\<open>Date\<close> is its time value in milliseconds, \<^term>\<open>None\<close> for an invalid date (whose
  time value is NaN). A relational operator on two dates compares the time values, and
  is false when one is NaN.
\<close>

type_synonym Date = "int option"

definition Date_ge :: "Date \<Rightarrow> Date \<Rightarrow> bool" where
  "Date_ge a b = (case (a, b) of (Some x, Some y) \<Rightarrow> x \<ge> y | _ \<Rightarrow> False)"

definition Date_le :: "Date \<Rightarrow> Date \<Rightarrow> bool" where
  "Date_le a b = (case (a, b) of (Some x, Some y) \<Rightarrow> x \<le> y | _ \<Rightarrow> False)"

text \<open>
  The difference of two time values as the comparator of \<^verbatim>\<open>ReturnLatestNews\<close> computes
  it; the difference is NaN when one of them is, and \<^verbatim>\<open>sort\<close> reads a NaN as 0.
\<close>

definition time_difference :: "Date \<Rightarrow> Date \<Rightarrow> int" where
  "time_difference b a = (case (b, a) of (Some tb, Some ta) \<Rightarrow> tb - ta | _ \<Rightarrow> 0)"

subsection \<open>The fetch\<close>

text \<open>
  What \<^verbatim>\<open>fetch(url)\<close> and \<^verbatim>\<open>response.json()\<close> can do: the request fails (the promise
  rejects), or a response arrives with a status and a body that either decodes to an array
  of news items (the type the code gives it) or fails to decode.
\<close>

datatype http_response = NetworkError | HttpResponse nat "NewsItem list option"

type_synonym network = "string \<Rightarrow> http_response"

text \<open>\<^verbatim>\<open>response.ok\<close>: the status is in the range 200 to 299.\<close>

definition response_ok :: "nat \<Rightarrow> bool" where
  "response_ok status = (200 \<le> status \<and> status \<le> 299)"

text \<open>
  The body of the \<^verbatim>\<open>try\<close> block of \<^verbatim>\<open>fetchNewsData\<close>. The errors of a failed
  request and of a body that does not decode are the platform's; their messages here
  stand for whatever the platform says. The \<^verbatim>\<open>catch\<close> of \<open>fetchNewsData\<close> turns
  every one of them into the empty array.
\<close>

definition fetchNewsData_try :: "(rat \<Rightarrow> string) \<Rightarrow> network \<Rightarrow> NewsFetcher \<Rightarrow> (js_error + NewsItem list) \<times> NewsFetcher" where
  "fetchNewsData_try print fetch this =
     (let url = createUrl print this in
      case fetch url of
        NetworkError \<Rightarrow> (Inl (Error ''fetch failed''), this)
      | HttpResponse status body \<Rightarrow>
          if \<not> response_ok status
          then (Inl (Error (''HTTP error! status: '' @ decimal (int status))), this)
          else (case body of
                  None \<Rightarrow> (Inl (Error ''Unexpected token in JSON''), this)
                | Some data \<Rightarrow> (Inr data, this)))"

definition fetchNewsData :: "(rat \<Rightarrow> string) \<Rightarrow> network \<Rightarrow> NewsFetcher \<Rightarrow> (js_error + NewsItem list) \<times> NewsFetcher" where
  "fetchNewsData print fetch this =
     (case fetchNewsData_try print fetch this of
        (Inl error, this') \<Rightarrow> (Inr [], this')
      | (Inr data, this') \<Rightarrow> (Inr data, this'))"

subsection \<open>The ten queries\<close>

text \<open>
  Each query awaits \<^verbatim>\<open>fetchNewsData\<close> inside a \<^verbatim>\<open>try\<close> whose \<^verbatim>\<open>catch\<close> returns the
  empty array; the first case of each definition is that \<^verbatim>\<open>catch\<close>.
\<close>

definition ReturnAllSources :: "(rat \<Rightarrow> string) \<Rightarrow> network \<Rightarrow> NewsFetcher \<Rightarrow> (js_error + string list) \<times> NewsFetcher" where
  "ReturnAllSources print fetch this =
     (case fetchNewsData print fetch this of
        (Inl error, this') \<Rightarrow> (Inr [], this')
      | (Inr data, this') \<Rightarrow>
          (let sources = Set_new (map (\<lambda>newsItem. source (item newsItem)) data)
           in (Inr sources, this')))"

definition ReturnAllTopics :: "(rat \<Rightarrow> string) \<Rightarrow> network \<Rightarrow> NewsFetcher \<Rightarrow> (js_error + string list) \<times> NewsFetcher" where
  "ReturnAllTopics print fetch this =
     (case fetchNewsData print fetch this of
        (Inl error, this') \<Rightarrow> (Inr [], this')
      | (Inr data, this') \<Rightarrow>
          (let categoryFrequency =
                 foldl (\<lambda>m newsItem. foldl count_key m (categories (item newsItem))) [] data
           in (Inr (map fst (Array_sort (\<lambda>a b. snd b - snd a) categoryFrequency)), this')))"

definition ReturnNewsWithATopic :: "(rat \<Rightarrow> string) \<Rightarrow> network \<Rightarrow> string \<Rightarrow> NewsFetcher \<Rightarrow> (js_error + NewsItem list) \<times> NewsFetcher" where
  "ReturnNewsWithATopic print fetch category this =
     (case fetchNewsData print fetch this of
        (Inl error, this') \<Rightarrow> (Inr [], this')
      | (Inr data, this') \<Rightarrow>
          (Inr (filter (\<lambda>newsItem.
                  list_ex (\<lambda>cat. toLowerCase cat = toLowerCase category)
                    (categories (item newsItem))) data), this'))"

definition ReturnNewsFromSource :: "(rat \<Rightarrow> string) \<Rightarrow> network \<Rightarrow> string \<Rightarrow> NewsFetcher \<Rightarrow> (js_error + NewsItem list) \<times> NewsFetcher" where
  "ReturnNewsFromSource print fetch src this =
     (case fetchNewsData print fetch this of
        (Inl error, this') \<Rightarrow> (Inr [], this')
      | (Inr data, this') \<Rightarrow>
          (Inr (filter (\<lambda>newsItem.
                  toLowerCase (source (item newsItem)) = toLowerCase src) data), this'))"

definition SearchNewsByKeyword :: "(rat \<Rightarrow> string) \<Rightarrow> network \<Rightarrow> string \<Rightarrow> NewsFetcher \<Rightarrow> (js_error + NewsItem list) \<times> NewsFetcher" where
  "SearchNewsByKeyword print fetch keyword this =
     (case fetchNewsData print fetch this of
        (Inl error, this') \<Rightarrow> (Inr [], this')
      | (Inr data, this') \<Rightarrow>
          (let searchTerm = toLowerCase keyword
           in (Inr (filter (\<lambda>newsItem.
                       String_includes (toLowerCase (title (item newsItem))) searchTerm \<or>
                       String_includes (toLowerCase (description (item newsItem))) searchTerm) data),
               this')))"

definition ReturnNewsByAuthor :: "(rat \<Rightarrow> string) \<Rightarrow> network \<Rightarrow> string \<Rightarrow> NewsFetcher \<Rightarrow> (js_error + NewsItem list) \<times> NewsFetcher" where
  "ReturnNewsByAuthor print fetch authorName this =
     (case fetchNewsData print fetch this of
        (Inl error, this') \<Rightarrow> (Inr [], this')
      | (Inr data, this') \<Rightarrow>
          (let searchName = toLowerCase authorName
           in (Inr (filter (\<lambda>newsItem.
                       list_ex (\<lambda>author. String_includes (toLowerCase (name author)) searchName)
                         (authors (item newsItem))) data),
               this')))"

text \<open>
  \<open>Date_new\<close> is the platform's \<^verbatim>\<open>new Date(string)\<close>. A parameter \<open>limit\<close> with a default
  is an option: \<^term>\<open>None\<close> is the call that leaves it out.
\<close>

definition ReturnLatestNews :: "(rat \<Rightarrow> string) \<Rightarrow> network \<Rightarrow> (string \<Rightarrow> Date) \<Rightarrow> int option \<Rightarrow> NewsFetcher \<Rightarrow> (js_error + NewsItem list) \<times> NewsFetcher" where
  "ReturnLatestNews print fetch Date_new limit this =
     (let limit = (case limit of None \<Rightarrow> 10 | Some l \<Rightarrow> l) in
      case fetchNewsData print fetch this of
        (Inl error, this') \<Rightarrow> (Inr [], this')
      | (Inr data, this') \<Rightarrow>
          (Inr (Array_slice
                  (Array_sort (\<lambda>a b. time_difference (Date_new (published (item b)))
                                                     (Date_new (published (item a)))) data)
                  0 limit), this'))"

definition ReturnNewsInDateRange :: "(rat \<Rightarrow> string) \<Rightarrow> network \<Rightarrow> (string \<Rightarrow> Date) \<Rightarrow> Date \<Rightarrow> Date \<Rightarrow> NewsFetcher \<Rightarrow> (js_error + NewsItem list) \<times> NewsFetcher" where
  "ReturnNewsInDateRange print fetch Date_new startDate endDate this =
     (case fetchNewsData print fetch this of
        (Inl error, this') \<Rightarrow> (Inr [], this')
      | (Inr data, this') \<Rightarrow>
          (Inr (filter (\<lambda>newsItem.
                  let publishDate = Date_new (published (item newsItem))
                  in Date_ge publishDate startDate \<and> Date_le publishDate endDate) data),
           this'))"

definition ReturnNewsWithMultipleCategories :: "(rat \<Rightarrow> string) \<Rightarrow> network \<Rightarrow> string list \<Rightarrow> NewsFetcher \<Rightarrow> (js_error + NewsItem list) \<times> NewsFetcher" where
  "ReturnNewsWithMultipleCategories print fetch cats this =
     (case fetchNewsData print fetch this of
        (Inl error, this') \<Rightarrow> (Inr [], this')
      | (Inr data, this') \<Rightarrow>
          (let searchCategories = map toLowerCase cats
           in (Inr (filter (\<lambda>newsItem.
                       list_all (\<lambda>searchCat.
                          list_ex (\<lambda>cat. toLowerCase cat = searchCat)
                            (categories (item newsItem))) searchCategories) data),
               this')))"

text \<open>An entry \<^verbatim>\<open>{source, count}\<close> of the result is the pair of the two.\<close>

definition ReturnTopSourcesByArticleCount :: "(rat \<Rightarrow> string) \<Rightarrow> network \<Rightarrow> int option \<Rightarrow> NewsFetcher \<Rightarrow> (js_error + (string \<times> int) list) \<times> NewsFetcher" where
  "ReturnTopSourcesByArticleCount print fetch limit this =
     (let limit = (case limit of None \<Rightarrow> 5 | Some l \<Rightarrow> l) in
      case fetchNewsData print fetch this of
        (Inl error, this') \<Rightarrow> (Inr [], this')
      | (Inr data, this') \<Rightarrow>
          (let sourceCount =
                 foldl (\<lambda>m newsItem. count_key m (source (item newsItem))) [] data
           in (Inr (map (\<lambda>(source, count). (source, count))
                      (Array_slice (Array_sort (\<lambda>a b. snd b - snd a) sourceCount) 0 limit)),
               this')))"

subsection \<open>Notions the properties are stated with\<close>

text \<open>The members of a list in the order of their first occurrence.\<close>

fun first_seen :: "'a list \<Rightarrow> 'a list" where
  "first_seen [] = []"
| "first_seen (x # xs) = x # filter (\<lambda>y. y \<noteq> x) (first_seen xs)"

text \<open>
  \<open>precedes xs a b\<close>: some occurrence of \<open>a\<close> in \<open>xs\<close> has an occurrence of \<open>b\<close> after
  it. In a list without duplicates this says that \<open>a\<close> stands before \<open>b\<close>.
\<close>

fun precedes :: "'a list \<Rightarrow> 'a \<Rightarrow> 'a \<Rightarrow> bool" where
  "precedes [] a b = False"
| "precedes (x # xs) a b = ((x = a \<and> b \<in> set xs) \<or> precedes xs a b)"

text \<open>The position of the first occurrence of \<open>x\<close> in \<open>xs\<close>.\<close>

definition first_index :: "'a list \<Rightarrow> 'a \<Rightarrow> nat" where
  "first_index xs x = length (takeWhile (\<lambda>y. y \<noteq> x) xs)"

text \<open>
  The fetch fails: the request does, or the status is not in the 2xx range, or the body
  does not decode.
\<close>

definition fetch_fails :: "(rat \<Rightarrow> string) \<Rightarrow> network \<Rightarrow> NewsFetcher \<Rightarrow> bool" where
  "fetch_fails print fetch this =
     (case fetch (createUrl print this) of
        NetworkError \<Rightarrow> True
      | HttpResponse status body \<Rightarrow> \<not> response_ok status \<or> body = None)"

subsection \<open>An example feed\<close>

text \<open>
  A printing of numbers for the examples: what the platform prints for \<open>1.5\<close>, \<open>6.5\<close>
  and \<open>10^21\<close>, the three numbers other than safe integers that the examples use.
\<close>

definition example_print :: "rat \<Rightarrow> string" where
  "example_print q =
     (if q = 3 / 2 then ''1.5'' else if q = 13 / 2 then ''6.5''
      else if q = 10 ^ 21 then ''1e+21'' else ''0'')"

text \<open>
  Three items of 12 November 2024, two of them from sources that differ in case only;
  the date parser of the example knows their three timestamps, in milliseconds since
  the epoch.
\<close>

definition example_item :: "string \<Rightarrow> string \<Rightarrow> string list \<Rightarrow> string \<Rightarrow> NewsItem" where
  "example_item h src cats pub =
     \<lparr>hash = h,
      item = \<lparr>title = ''Title'', description = ''Text'', links = [], categories = cats,
              source = src, authors = [\<lparr>name = ''Ann''\<rparr>], image = \<lparr>url = []\<rparr>,
              published = pub\<rparr>\<rparr>"

definition example_h1 :: NewsItem where
  "example_h1 =
     example_item ''h1'' ''Reuters'' [''Sports'', ''World''] ''2024-11-12T01:00:00.000Z''"

definition example_h2 :: NewsItem where
  "example_h2 =
     example_item ''h2'' ''reuters'' [''Motorsports'', ''World''] ''2024-11-12T03:00:00.000Z''"

definition example_h3 :: NewsItem where
  "example_h3 =
     example_item ''h3'' ''BBC'' [''politics'', ''SPORTS'', ''World'']
       ''2024-11-12T02:00:00.000Z''"

definition example_data :: "NewsItem list" where
  "example_data = [example_h1, example_h2, example_h3]"

definition example_Date_new :: "string \<Rightarrow> Date" where
  "example_Date_new =
     map_of [(''2024-11-12T01:00:00.000Z'', 1731373200000),
             (''2024-11-12T02:00:00.000Z'', 1731376800000),
             (''2024-11-12T03:00:00.000Z'', 1731380400000)]"

definition example_fetcher :: NewsFetcher where
  "example_fetcher =
     NewsFetcher_new ''https://api.news.com'' (Finite 12) (Finite 11) (Finite 2024)"

definition example_network :: network where
  "example_network address =
     (if address = ''https://api.news.com/November-2024/12-11-2024.json''
      then HttpResponse 200 (Some example_data) else HttpResponse 404 None)"

section \<open>Properties\<close>

subsection \<open>Numbers\<close>

lemma is_integer_of_int [simp]: "is_integer (of_int n)"
  by (simp add: is_integer_def)

lemma is_integer_iff: "is_integer q \<longleftrightarrow> (\<exists>n. q = of_int n)"
  by (auto simp: is_integer_def intro: exI[of _ "\<lfloor>q\<rfloor>"])

lemma is_integer_minus_one: "is_integer (q - 1) \<longleftrightarrow> is_integer q"
proof
  assume "is_integer (q - 1)"
  then obtain n where "q - 1 = of_int n" by (auto simp: is_integer_iff)
  then have "q = of_int (n + 1)" by simp
  then show "is_integer q" by (simp only: is_integer_of_int)
next
  assume "is_integer q"
  then obtain n where "q = of_int n" by (auto simp: is_integer_iff)
  then have "q - 1 = of_int (n - 1)" by simp
  then show "is_integer (q - 1)" by (simp only: is_integer_of_int)
qed

lemma floor_rat_divide_numeral: "\<lfloor>numeral a / numeral b :: rat\<rfloor> = numeral a div numeral b"
  using floor_divide_of_int_eq[of "numeral a" "numeral b", where ?'a = rat] by simp

lemma integer_in_Some:
  "integer_in lo hi x = Some n \<longleftrightarrow> x = Finite (of_int n) \<and> lo \<le> n \<and> n \<le> hi"
  by (cases x) (auto simp: integer_in_def is_integer_def)

lemma integer_of_Some: "integer_of x = Some n \<longleftrightarrow> x = Finite (of_int n)"
  by (cases x) (auto simp: integer_of_def is_integer_def)

lemma in_range_integer_in:
  assumes r: "in_range (of_int lo) (of_int hi) x" and i: "integer_of x = Some k"
  shows "integer_in lo hi x = Some k"
proof -
  from i have x: "x = Finite (of_int k)" by (simp add: integer_of_Some)
  from r have "lo \<le> k" "k \<le> hi" unfolding x by (simp_all add: in_range_def)
  then show ?thesis by (simp add: integer_in_Some x)
qed

lemma isSafeInteger_of_int: "isSafeInteger (Finite (of_int n)) \<longleftrightarrow> \<bar>n\<bar> \<le> 2 ^ 53 - 1"
proof -
  have "\<bar>(of_int n :: rat)\<bar> \<le> 2 ^ 53 - 1 \<longleftrightarrow> (of_int \<bar>n\<bar> :: rat) \<le> of_int (2 ^ 53 - 1)"
    by simp
  also have "\<dots> \<longleftrightarrow> \<bar>n\<bar> \<le> 2 ^ 53 - 1"
    by (simp only: of_int_le_iff)
  finally show ?thesis by (simp add: isSafeInteger_def)
qed

lemma Number_toString_safe:
  "\<bar>n\<bar> \<le> 2 ^ 53 - 1 \<Longrightarrow> Number_toString print (Finite (of_int n)) = decimal n"
  by (simp add: Number_toString_def isSafeInteger_of_int)

lemma Number_toString_integer_in:
  assumes "integer_in lo hi x = Some n" "- (2 ^ 53 - 1) \<le> lo" "hi \<le> 2 ^ 53 - 1"
  shows "Number_toString print x = decimal n"
proof -
  from assms(1) have x: "x = Finite (of_int n)" and r: "lo \<le> n" "n \<le> hi"
    by (simp_all add: integer_in_Some)
  from r assms(2,3) have "\<bar>n\<bar> \<le> 2 ^ 53 - 1" by simp
  then show ?thesis unfolding x by (rule Number_toString_safe)
qed

lemma Number_toString_safe_integer:
  assumes "isSafeInteger x" "integer_of x = Some n"
  shows "Number_toString print x = decimal n"
proof -
  from assms(2) have x: "x = Finite (of_int n)" by (simp add: integer_of_Some)
  with assms(1) have "\<bar>n\<bar> \<le> 2 ^ 53 - 1" by (simp add: isSafeInteger_of_int)
  then show ?thesis unfolding x by (rule Number_toString_safe)
qed

lemma Array_get_of_int:
  "Array_get xs (Finite (of_int i)) =
     (if 0 \<le> i \<and> i < int (length xs) then Some (xs ! nat i) else None)"
proof -
  have "(of_int i :: rat) < of_nat (length xs) \<longleftrightarrow> i < int (length xs)"
    by (metis of_int_less_iff of_int_of_nat_eq)
  then show ?thesis by (simp add: Array_get_def)
qed

lemma number_lt_Finite:
  "number_lt x (Finite b) =
     (case x of Finite a \<Rightarrow> a < b | NegInfinity \<Rightarrow> True | _ \<Rightarrow> False)"
  by (cases x) simp_all

lemma number_gt_Finite:
  "number_gt x (Finite b) =
     (case x of Finite a \<Rightarrow> b < a | PosInfinity \<Rightarrow> True | _ \<Rightarrow> False)"
  by (cases x) (simp_all add: number_gt_def)

lemma guard_iff:
  "number_lt x (Finite lo) \<or> number_gt x (Finite hi) \<longleftrightarrow> x \<noteq> NaN \<and> \<not> in_range lo hi x"
  by (cases x) (auto simp: number_lt_Finite number_gt_Finite in_range_def)

subsection \<open>Decimal digits and padding\<close>

lemma nat_digits_small: "n < 10 \<Longrightarrow> nat_digits n = [digit_char n]"
  by (simp add: nat_digits.simps)

lemma nat_digits_two:
  "10 \<le> n \<Longrightarrow> n < 100 \<Longrightarrow> nat_digits n = [digit_char (n div 10), digit_char (n mod 10)]"
  by (subst nat_digits.simps) (simp add: nat_digits_small)

lemma padStart_two_digits:
  assumes "0 \<le> n" "n \<le> 99"
  shows "padStart (decimal n) 2 ''0'' = [digit_char (nat n div 10), digit_char (nat n mod 10)]"
proof (cases "n < 10")
  case True
  then have "nat n < 10" by simp
  then have "nat n div 10 = 0" "nat n mod 10 = nat n" by simp_all
  moreover have "digit_char 0 = CHR ''0''" by (simp add: digit_char_def)
  ultimately show ?thesis using assms True
    by (simp add: padStart_def decimal_def nat_digits_small)
next
  case False
  then have "10 \<le> nat n" "nat n < 100" using assms by simp_all
  then show ?thesis using assms
    by (simp add: padStart_def decimal_def nat_digits_two)
qed

lemma digit_char_in: "d < 10 \<Longrightarrow> digit_char d \<in> set ''0123456789''"
  unfolding digit_char_def by (rule nth_mem) simp

lemma set_nat_digits: "set (nat_digits n) \<subseteq> set ''0123456789''"
proof (induction n rule: nat_digits.induct)
  case (1 n)
  show ?case
  proof (cases "n < 10")
    case True
    then show ?thesis using digit_char_in[of n] by (subst nat_digits.simps) simp
  next
    case False
    have "n mod 10 < 10" by simp
    from digit_char_in[OF this] 1[OF False] False show ?thesis
      by (subst nat_digits.simps) simp
  qed
qed

lemma set_decimal: "set (decimal n) \<subseteq> set ''-0123456789''"
proof -
  have sub: "set ''0123456789'' \<subseteq> set ''-0123456789''" by (simp add: subset_insertI2)
  have d: "set (nat_digits k) \<subseteq> set ''-0123456789''" for k
    using set_nat_digits[of k] sub by (rule subset_trans)
  show ?thesis
  proof (cases "n < 0")
    case True
    then have "decimal n = CHR ''-'' # nat_digits (nat (- n))"
      by (simp add: decimal_def)
    moreover have "CHR ''-'' \<in> set ''-0123456789''" by simp
    ultimately show ?thesis using d[of "nat (- n)"]
      by (simp del: set_simps list.set
            add: list.set(2)[of "CHR ''-''" "nat_digits (nat (- n))"])
  next
    case False
    then show ?thesis using d[of "nat n"] by (simp only: decimal_def if_False)
  qed
qed

lemma set_padStart: "set (padStart s 2 ''0'') \<subseteq> insert CHR ''0'' (set s)"
  by (auto simp: padStart_def dest!: in_set_takeD)

lemma set_Number_toString:
  assumes "\<forall>q. set (print q) \<subseteq> set ''0123456789.e+-''"
  shows "set (Number_toString print x) \<subseteq> set ''0123456789.e+-NaInfity''"
proof -
  let ?A = "set ''0123456789.e+-NaInfity''"
  have p: "set ''0123456789.e+-'' \<subseteq> ?A" by auto
  have dd: "set ''-0123456789'' \<subseteq> ?A" by auto
  show ?thesis
  proof (cases x)
    case (Finite q)
    show ?thesis
    proof (cases "isSafeInteger (Finite q)")
      case True
      then have e: "Number_toString print x = decimal \<lfloor>q\<rfloor>"
        by (simp add: Finite Number_toString_def)
      have "set (decimal \<lfloor>q\<rfloor>) \<subseteq> ?A"
        using set_decimal[of "\<lfloor>q\<rfloor>"] dd by (rule subset_trans)
      then show ?thesis by (simp only: e)
    next
      case False
      then have e: "Number_toString print x = print q"
        by (simp add: Finite Number_toString_def)
      have "set (print q) \<subseteq> set ''0123456789.e+-''" using assms by blast
      then have "set (print q) \<subseteq> ?A" using p by (rule subset_trans)
      then show ?thesis by (simp only: e)
    qed
  next
    case NaN
    then show ?thesis by (simp add: Number_toString_def)
  next
    case PosInfinity
    then show ?thesis by (simp add: Number_toString_def)
  next
    case NegInfinity
    then show ?thesis by (simp add: Number_toString_def)
  qed
qed

subsection \<open>The month lookup, the URL and the setter\<close>

lemma Array_get_monthNames:
  "Array_get monthNames (number_minus m (Finite 1)) =
     (case integer_in 1 12 m of Some k \<Rightarrow> Some (monthNames ! nat (k - 1)) | None \<Rightarrow> None)"
proof (cases m)
  case (Finite q)
  show ?thesis
  proof (cases "is_integer q")
    case True
    then obtain k where k: "q = of_int k" by (auto simp: is_integer_iff)
    have len: "int (length monthNames) = 12" by (simp add: monthNames_def)
    have q1: "q - 1 = of_int (k - 1)" by (simp add: k)
    have a: "Array_get monthNames (Finite (q - 1)) =
        (if 0 \<le> k - 1 \<and> k - 1 < 12 then Some (monthNames ! nat (k - 1)) else None)"
      unfolding q1 Array_get_of_int len ..
    have b: "integer_in 1 12 (Finite q) = (if 1 \<le> k \<and> k \<le> 12 then Some k else None)"
      by (simp add: integer_in_def k)
    show ?thesis
      unfolding Finite number_minus.simps a b by auto
  next
    case False
    then have "\<not> is_integer (q - 1)" by (simp add: is_integer_minus_one)
    with False show ?thesis by (simp add: Finite Array_get_def integer_in_def)
  qed
qed (simp_all add: Array_get_def integer_in_def)

lemma createUrl_in_range:
  assumes m: "integer_in 1 12 (month this) = Some m"
    and d: "integer_in 0 99 (date this) = Some d"
    and y: "isSafeInteger (year this)" "integer_of (year this) = Some y"
  shows "createUrl print this =
           baseUrl this @ ''/'' @ monthNames ! nat (m - 1) @ ''-'' @ decimal y @ ''/''
             @ [digit_char (nat d div 10), digit_char (nat d mod 10)] @ ''-''
             @ [digit_char (nat m div 10), digit_char (nat m mod 10)]
             @ ''-'' @ decimal y @ ''.json''"
proof -
  have tm: "Number_toString print (month this) = decimal m"
    using m by (rule Number_toString_integer_in) simp_all
  have td: "Number_toString print (date this) = decimal d"
    using d by (rule Number_toString_integer_in) simp_all
  have ty: "Number_toString print (year this) = decimal y"
    using y by (rule Number_toString_safe_integer)
  from m have mr: "0 \<le> m" "m \<le> 99" by (simp_all add: integer_in_Some)
  from d have dr: "0 \<le> d" "d \<le> 99" by (simp_all add: integer_in_Some)
  have l: "Array_get monthNames (number_minus (month this) (Finite 1))
      = Some (monthNames ! nat (m - 1))"
    by (simp add: Array_get_monthNames m)
  show ?thesis
    unfolding createUrl_def Let_def tm td ty l template_string_def
      padStart_two_digits[OF mr] padStart_two_digits[OF dr]
    by simp
qed

lemma createUrl_spec_in_range:
  assumes m: "integer_in 1 12 (month this) = Some m"
    and d: "integer_in 0 99 (date this) = Some d"
    and y: "isSafeInteger (year this)" "integer_of (year this) = Some y"
  shows "createUrl_spec this = Some (createUrl print this)"
proof -
  from m have "integer_in 0 99 (month this) = Some m"
    by (auto simp: integer_in_Some)
  then show ?thesis
    by (simp add: createUrl_in_range[OF assms] createUrl_spec_def month_name_def two_digits_def
        m d y)
qed

lemma createUrl_out_of_range:
  assumes "integer_in 1 12 (month this) = None"
  shows "createUrl print this = baseUrl this @ undefined_url_tail print this"
proof -
  have "Array_get monthNames (number_minus (month this) (Finite 1)) = None"
    by (simp add: Array_get_monthNames assms)
  then show ?thesis
    by (simp add: createUrl_def undefined_url_tail_def template_string_def)
qed

lemma String_includes_set: "String_includes s t \<Longrightarrow> set t \<subseteq> set s"
proof (induction s)
  case Nil
  then show ?case by simp
next
  case (Cons c cs)
  from Cons.prems have "prefix t (c # cs) \<or> String_includes cs t" by simp
  then show ?case
  proof
    assume "prefix t (c # cs)"
    then show ?thesis by (rule set_mono_prefix)
  next
    assume "String_includes cs t"
    then have "set t \<subseteq> set cs" by (rule Cons.IH)
    then show ?thesis by auto
  qed
qed

lemma set_undefined_url_tail:
  assumes "\<forall>q. set (print q) \<subseteq> set ''0123456789.e+-''"
  shows "set (undefined_url_tail print this) \<subseteq> set ''/undefined-.json0123456789+NaIty''"
proof -
  let ?T = "set ''/undefined-.json0123456789+NaIty''"
  have T: "set ''0123456789.e+-NaInfity'' \<subseteq> ?T" "insert CHR ''0'' ?T = ?T" by auto
  have n: "set (Number_toString print k) \<subseteq> ?T" for k
    using set_Number_toString[OF assms, of k] T(1) by (rule subset_trans)
  have p: "set (padStart (Number_toString print k) 2 ''0'') \<subseteq> ?T" for k
  proof -
    have "set (padStart (Number_toString print k) 2 ''0'')
            \<subseteq> insert CHR ''0'' (set (Number_toString print k))"
      by (rule set_padStart)
    also have "\<dots> \<subseteq> insert CHR ''0'' ?T" using n[of k] by (rule insert_mono)
    finally show ?thesis unfolding T(2) .
  qed
  have c: "set ''/undefined-'' \<subseteq> ?T" "set ''/'' \<subseteq> ?T" "set ''-'' \<subseteq> ?T" "set ''.json'' \<subseteq> ?T"
    by auto
  show ?thesis
    unfolding undefined_url_tail_def set_append
    by (intro Un_least c n p)
qed

lemma no_month_in_undefined_url_tail:
  assumes pr: "\<forall>q. set (print q) \<subseteq> set ''0123456789.e+-''"
    and mn: "mn \<in> set monthNames"
  shows "\<not> String_includes (undefined_url_tail print this) mn"
proof
  let ?T = "set ''/undefined-.json0123456789+NaIty''"
  assume "String_includes (undefined_url_tail print this) mn"
  then have sub: "set mn \<subseteq> ?T"
    using String_includes_set set_undefined_url_tail[OF pr] by blast
  have out:
    "CHR ''J'' \<notin> ?T" "CHR ''F'' \<notin> ?T" "CHR ''M'' \<notin> ?T" "CHR ''A'' \<notin> ?T"
    "CHR ''S'' \<notin> ?T" "CHR ''O'' \<notin> ?T" "CHR ''D'' \<notin> ?T" "CHR ''v'' \<notin> ?T"
    by simp_all
  have "\<exists>c \<in> set ''JFMASODv''. c \<in> set mn"
    using mn by (auto simp: monthNames_def)
  then obtain c where c: "c \<in> set ''JFMASODv''" "c \<in> set mn" by blast
  from c(1) out have "c \<notin> ?T" by auto
  with c(2) sub show False by blast
qed

lemma example_print_numerals: "\<forall>q. set (example_print q) \<subseteq> set ''0123456789.e+-''"
  by (simp add: example_print_def)

lemma setDate_cases:
  "setDate d m y this =
     (if d \<noteq> NaN \<and> \<not> in_range 1 31 d then (Inl (Error ''Invalid date''), this)
      else if m \<noteq> NaN \<and> \<not> in_range 1 12 m then (Inl (Error ''Invalid month''), this)
      else if y \<noteq> NaN \<and> \<not> in_range 2000 2100 y then (Inl (Error ''Invalid year''), this)
      else (Inr (), this\<lparr>date := d, month := m, year := y\<rparr>))"
  unfolding setDate_def guard_iff ..

lemma setDate_success:
  assumes "fst (setDate d m y this) = Inr ()"
  shows "snd (setDate d m y this) = this\<lparr>date := d, month := m, year := y\<rparr>"
    and "m = NaN \<or> in_range 1 12 m"
  using assms by (auto simp: setDate_cases split: if_splits)

lemmas lower_defs = toLowerCase_def char_toLowerCase_def capital_letters_def small_letters_def

text \<open>
  Claim C1, as amended. For every state in which the month is an integer from 1 to 12,
  the date an integer from 0 to 99 and the year a safe integer, \<open>createUrl\<close> returns
  \<open>{baseUrl}/{MonthName}-{year}/{DD}-{MM}-{year}.json\<close>, where \<open>MonthName\<close> is the entry
  \<open>month - 1\<close> of the twelve English month names, \<open>DD\<close> and \<open>MM\<close> are the two decimal
  digits of the date and of the month (tens, then units) and the year is written in
  decimal digits; this is the string of \<open>createUrl_spec\<close>. For date 12, month 11, year
  2024 and any base URL \<open>b\<close> the result is \<open>b\<close> followed by
  \<open>/November-2024/12-11-2024.json\<close>.
\<close>

theorem createUrl_format:
  "(integer_in 1 12 (month this) = Some m \<and> integer_in 0 99 (date this) = Some d
      \<and> isSafeInteger (year this) \<and> integer_of (year this) = Some y \<longrightarrow>
      createUrl print this =
        baseUrl this @ ''/'' @ monthNames ! nat (m - 1) @ ''-'' @ decimal y @ ''/''
          @ [digit_char (nat d div 10), digit_char (nat d mod 10)] @ ''-''
          @ [digit_char (nat m div 10), digit_char (nat m mod 10)]
          @ ''-'' @ decimal y @ ''.json''
      \<and> createUrl_spec this = Some (createUrl print this))
   \<and> createUrl print \<lparr>baseUrl = b, month = Finite 11, year = Finite 2024, date = Finite 12\<rparr>
        = b @ ''/November-2024/12-11-2024.json''"
proof (intro conjI impI)
  assume r: "integer_in 1 12 (month this) = Some m \<and> integer_in 0 99 (date this) = Some d
      \<and> isSafeInteger (year this) \<and> integer_of (year this) = Some y"
  then show "createUrl print this =
        baseUrl this @ ''/'' @ monthNames ! nat (m - 1) @ ''-'' @ decimal y @ ''/''
          @ [digit_char (nat d div 10), digit_char (nat d mod 10)] @ ''-''
          @ [digit_char (nat m div 10), digit_char (nat m mod 10)]
          @ ''-'' @ decimal y @ ''.json''"
    by (intro createUrl_in_range) simp_all
  from r show "createUrl_spec this = Some (createUrl print this)"
    by (intro createUrl_spec_in_range[where m = m and d = d and y = y]) simp_all
next
  show "createUrl print \<lparr>baseUrl = b, month = Finite 11, year = Finite 2024, date = Finite 12\<rparr>
        = b @ ''/November-2024/12-11-2024.json''"
    by (simp add: createUrl_def Array_get_def is_integer_def monthNames_def template_string_def
        padStart_def Number_toString_def isSafeInteger_def decimal_def nat_digits.simps
        digit_char_def)
qed

theorem createUrl_format_witness:
  "createUrl example_print
       \<lparr>baseUrl = ''https://api.news.com'', month = Finite 6, year = Finite 2023,
          date = Finite 15\<rparr>
     = ''https://api.news.com/June-2023/15-06-2023.json''
   \<and> createUrl_spec
       \<lparr>baseUrl = ''https://api.news.com'', month = Finite 6, year = Finite 2023,
          date = Finite 15\<rparr>
     = Some ''https://api.news.com/June-2023/15-06-2023.json''"
  using createUrl_format
    [of "\<lparr>baseUrl = ''https://api.news.com'', month = Finite 6, year = Finite 2023,
           date = Finite 15\<rparr>" 6 15 2023 example_print]
  by (simp add: integer_in_def integer_of_def isSafeInteger_def is_integer_def monthNames_def
      decimal_def nat_digits.simps digit_char_def)

text \<open>
  Claim C1 as stated, for every state, fails. With month 13 the lookup is
  \<^verbatim>\<open>undefined\<close> and the URL carries the word \<open>undefined\<close> where the month name should
  be; with date 100 the padded date has three digits; with year \<open>10^21\<close> the year is
  printed as \<open>1e+21\<close>, not in decimal digits. In the first two states no string of the
  described form exists, in the third it is not the string returned.
\<close>

theorem createUrl_every_state_counterexample:
  "createUrl example_print
       \<lparr>baseUrl = ''https://api.news.com'', month = Finite 13, year = Finite 2024,
          date = Finite 1\<rparr>
     = ''https://api.news.com/undefined-2024/01-13-2024.json''
   \<and> createUrl_spec
       \<lparr>baseUrl = ''https://api.news.com'', month = Finite 13, year = Finite 2024,
          date = Finite 1\<rparr> = None
   \<and> createUrl example_print
       \<lparr>baseUrl = ''https://api.news.com'', month = Finite 11, year = Finite 2024,
          date = Finite 100\<rparr>
     = ''https://api.news.com/November-2024/100-11-2024.json''
   \<and> createUrl_spec
       \<lparr>baseUrl = ''https://api.news.com'', month = Finite 11, year = Finite 2024,
          date = Finite 100\<rparr> = None
   \<and> createUrl example_print
       \<lparr>baseUrl = ''https://api.news.com'', month = Finite 11, year = Finite (10 ^ 21),
          date = Finite 12\<rparr>
     = ''https://api.news.com/November-1e+21/12-11-1e+21.json''
   \<and> createUrl_spec
       \<lparr>baseUrl = ''https://api.news.com'', month = Finite 11, year = Finite (10 ^ 21),
          date = Finite 12\<rparr>
     = Some ''https://api.news.com/November-1000000000000000000000/12-11-1000000000000000000000.json''"
  by (simp add: createUrl_def Array_get_def is_integer_def monthNames_def template_string_def
      padStart_def Number_toString_def isSafeInteger_def decimal_def nat_digits.simps
      digit_char_def createUrl_spec_def month_name_def two_digits_def integer_in_def
      integer_of_def example_print_def)




text \<open>
  Claim C3. \<open>setDate\<close> is all or nothing, for all numbers. If the call throws, the
  instance after the call is the instance before it: date, month, year (and the base URL)
  are unchanged. If it returns, the three fields are the three arguments and the base URL
  is unchanged.
\<close>

theorem setDate_atomic:
  "(\<forall>e. fst (setDate d m y this) = Inl e \<longrightarrow> snd (setDate d m y this) = this)
   \<and> (fst (setDate d m y this) = Inr () \<longrightarrow>
        date (snd (setDate d m y this)) = d \<and> month (snd (setDate d m y this)) = m
        \<and> year (snd (setDate d m y this)) = y
        \<and> baseUrl (snd (setDate d m y this)) = baseUrl this)"
  by (auto simp: setDate_def)

theorem setDate_atomic_witness:
  "snd (setDate (Finite 32) (Finite 1) (Finite 2024) example_fetcher) = example_fetcher
   \<and> snd (setDate (Finite 1) (Finite 13) (Finite 2024) example_fetcher) = example_fetcher
   \<and> snd (setDate (Finite 1) (Finite 1) (Finite 1999) example_fetcher) = example_fetcher
   \<and> date (snd (setDate (Finite 15) (Finite 6) (Finite 2023) example_fetcher)) = Finite 15
   \<and> month (snd (setDate (Finite 15) (Finite 6) (Finite 2023) example_fetcher)) = Finite 6
   \<and> year (snd (setDate (Finite 15) (Finite 6) (Finite 2023) example_fetcher)) = Finite 2023"
proof -
  let ?s = example_fetcher
  have f: "fst (setDate (Finite 32) (Finite 1) (Finite 2024) ?s) = Inl (Error ''Invalid date'')"
    "fst (setDate (Finite 1) (Finite 13) (Finite 2024) ?s) = Inl (Error ''Invalid month'')"
    "fst (setDate (Finite 1) (Finite 1) (Finite 1999) ?s) = Inl (Error ''Invalid year'')"
    "fst (setDate (Finite 15) (Finite 6) (Finite 2023) ?s) = Inr ()"
    by (simp_all add: setDate_def number_gt_def)
  show ?thesis
    using setDate_atomic [of "Finite 32" "Finite 1" "Finite 2024" ?s]
      setDate_atomic [of "Finite 1" "Finite 13" "Finite 2024" ?s]
      setDate_atomic [of "Finite 1" "Finite 1" "Finite 1999" ?s]
      setDate_atomic [of "Finite 15" "Finite 6" "Finite 2023" ?s]
    unfolding f by simp
qed

text \<open>
  Claim C10, as amended. The lookup \<open>monthNames[month - 1]\<close> inside \<open>createUrl\<close> finds
  an entry exactly when the month is an integer from 1 to 12; the entry is then one of
  the twelve names and the URL continues with it after the base URL and the slash. The
  constructor validates nothing: for an instance built with any other month (an integer
  outside 1 to 12, a fraction, NaN, an infinity) the lookup is \<^verbatim>\<open>undefined\<close>, the URL
  is the base URL followed by \<open>/undefined-{year}/...\<close>, the word \<open>undefined\<close> is no month
  name, and, numbers being printed with digits, point, signs and \<open>e\<close>, no month name
  occurs in what follows the base URL. After a successful \<open>setDate\<close> whose month
  argument is an integer, the stored month is an integer from 1 to 12 and the lookup
  finds its entry.
\<close>

theorem month_lookup_bounds:
  "(Array_get monthNames (number_minus (month this) (Finite 1)) \<noteq> None \<longleftrightarrow>
      integer_in 1 12 (month this) \<noteq> None)
   \<and> (integer_in 1 12 (month this) = Some k \<longrightarrow>
        Array_get monthNames (number_minus (month this) (Finite 1))
          = Some (monthNames ! nat (k - 1))
        \<and> monthNames ! nat (k - 1) \<in> set monthNames
        \<and> (\<exists>rest. createUrl print this
                     = baseUrl this @ ''/'' @ monthNames ! nat (k - 1) @ rest))
   \<and> (integer_in 1 12 m = None \<longrightarrow>
        Array_get monthNames (number_minus (month (NewsFetcher_new b d m y)) (Finite 1)) = None
        \<and> createUrl print (NewsFetcher_new b d m y)
            = b @ undefined_url_tail print (NewsFetcher_new b d m y)
        \<and> ''undefined'' \<notin> set monthNames
        \<and> ((\<forall>q. set (print q) \<subseteq> set ''0123456789.e+-'') \<longrightarrow>
             (\<forall>mn \<in> set monthNames.
                \<not> String_includes (undefined_url_tail print (NewsFetcher_new b d m y)) mn)))
   \<and> (fst (setDate d' m' y' this) = Inr () \<and> integer_of m' = Some k' \<longrightarrow>
        integer_in 1 12 (month (snd (setDate d' m' y' this))) = Some k'
        \<and> Array_get monthNames (number_minus (month (snd (setDate d' m' y' this))) (Finite 1))
            = Some (monthNames ! nat (k' - 1)))"
proof (intro conjI impI ballI)
  show "Array_get monthNames (number_minus (month this) (Finite 1)) \<noteq> None \<longleftrightarrow>
      integer_in 1 12 (month this) \<noteq> None"
    by (simp add: Array_get_monthNames split: option.splits)
next
  assume k: "integer_in 1 12 (month this) = Some k"
  then show l: "Array_get monthNames (number_minus (month this) (Finite 1))
          = Some (monthNames ! nat (k - 1))"
    by (simp add: Array_get_monthNames)
  from k have "1 \<le> k" "k \<le> 12" by (simp_all add: integer_in_Some)
  then have "nat (k - 1) < 12" by arith
  then show "monthNames ! nat (k - 1) \<in> set monthNames"
    by (intro nth_mem) (simp add: monthNames_def)
  show "\<exists>rest. createUrl print this = baseUrl this @ ''/'' @ monthNames ! nat (k - 1) @ rest"
    by (simp add: createUrl_def l template_string_def)
next
  assume o: "integer_in 1 12 m = None"
  have mm: "month (NewsFetcher_new b d m y) = m" "baseUrl (NewsFetcher_new b d m y) = b"
    by (simp_all add: NewsFetcher_new_def)
  show "Array_get monthNames (number_minus (month (NewsFetcher_new b d m y)) (Finite 1)) = None"
    unfolding mm by (simp add: Array_get_monthNames o)
  show "createUrl print (NewsFetcher_new b d m y)
          = b @ undefined_url_tail print (NewsFetcher_new b d m y)"
    using createUrl_out_of_range[of "NewsFetcher_new b d m y" print] o unfolding mm by blast
  show "''undefined'' \<notin> set monthNames"
    by (simp add: monthNames_def)
next
  fix mn
  assume "\<forall>q. set (print q) \<subseteq> set ''0123456789.e+-''" "mn \<in> set monthNames"
  then show "\<not> String_includes (undefined_url_tail print (NewsFetcher_new b d m y)) mn"
    by (rule no_month_in_undefined_url_tail)
next
  assume s: "fst (setDate d' m' y' this) = Inr () \<and> integer_of m' = Some k'"
  then have f: "fst (setDate d' m' y' this) = Inr ()" and i: "integer_of m' = Some k'"
    by simp_all
  from setDate_success[OF f] have mo: "month (snd (setDate d' m' y' this)) = m'"
    and r: "m' = NaN \<or> in_range 1 12 m'" by simp_all
  from i have "m' \<noteq> NaN" by (auto simp: integer_of_def)
  with r have "in_range (of_int 1) (of_int 12) m'" by simp
  then have k: "integer_in 1 12 m' = Some k'" using i by (rule in_range_integer_in)
  then show "integer_in 1 12 (month (snd (setDate d' m' y' this))) = Some k'"
    unfolding mo .
  from k show "Array_get monthNames
      (number_minus (month (snd (setDate d' m' y' this))) (Finite 1))
        = Some (monthNames ! nat (k' - 1))"
    unfolding mo by (simp add: Array_get_monthNames)
qed

theorem month_lookup_bounds_witness:
  "Array_get monthNames (number_minus (month example_fetcher) (Finite 1)) = Some ''November''
   \<and> createUrl example_print (NewsFetcher_new ''https://api.news.com'' (Finite 1) (Finite 13) (Finite 2024))
     = ''https://api.news.com/undefined-2024/01-13-2024.json''
   \<and> createUrl example_print (NewsFetcher_new ''https://api.news.com'' (Finite 1) NaN (Finite 2024))
     = ''https://api.news.com/undefined-2024/01-NaN-2024.json''
   \<and> \<not> String_includes ''/undefined-2024/01-NaN-2024.json'' ''November''
   \<and> Array_get monthNames (number_minus (month (snd (setDate (Finite 15) (Finite 6) (Finite 2023)
        example_fetcher))) (Finite 1))
     = Some ''June''"
proof -
  let ?s = example_fetcher
  have november: "''November'' \<in> set monthNames" by (simp add: monthNames_def)
  have f: "fst (setDate (Finite 15) (Finite 6) (Finite 2023) ?s) = Inr ()"
    by (simp add: setDate_def number_gt_def)
  have i: "integer_in 1 12 (month ?s) = Some 11" "integer_in 1 12 (Finite 13) = None"
    "integer_in 1 12 NaN = None" "integer_of (Finite 6) = Some 6"
    by (simp_all add: integer_in_def integer_of_def is_integer_def example_fetcher_def
        NewsFetcher_new_def)
  have t: "undefined_url_tail example_print
             (NewsFetcher_new ''https://api.news.com'' (Finite 1) (Finite 13) (Finite 2024))
       = ''/undefined-2024/01-13-2024.json''"
    "undefined_url_tail example_print
             (NewsFetcher_new ''https://api.news.com'' (Finite 1) NaN (Finite 2024))
       = ''/undefined-2024/01-NaN-2024.json''"
    by (simp_all add: undefined_url_tail_def NewsFetcher_new_def padStart_def
        Number_toString_def isSafeInteger_def is_integer_def decimal_def nat_digits.simps
        digit_char_def)
  have a: "monthNames ! nat (11 - 1) = ''November''" "monthNames ! nat (6 - 1) = ''June''"
    by (simp_all add: monthNames_def)
  note w1 = month_lookup_bounds
      [of ?s 11 example_print "Finite 13" "''https://api.news.com''" "Finite 1" "Finite 2024"
         "Finite 15" "Finite 6" "Finite 2023" 6]
  note w2 = month_lookup_bounds
      [of ?s 11 example_print NaN "''https://api.news.com''" "Finite 1" "Finite 2024"
         "Finite 15" "Finite 6" "Finite 2023" 6]
  show ?thesis
    using w1 w2 november example_print_numerals
    unfolding f i t a by simp
qed

text \<open>
  Claim C10 as stated fails in two places. \<open>setDate(15, 6.5, 2023)\<close> succeeds and
  \<open>1 \<le> 6.5 \<le> 12\<close> holds, yet \<open>monthNames[5.5]\<close> is \<^verbatim>\<open>undefined\<close> and the URL carries
  \<open>undefined\<close>: \<open>1 \<le> month \<le> 12\<close> neither makes the lookup safe nor is all that a
  successful \<open>setDate\<close> would have to guarantee. And with the base URL \<open>March\<close> and
  month 13 the produced URL does contain a month name, in its base URL.
\<close>

theorem month_lookup_fraction_counterexample:
  "fst (setDate (Finite 15) (Finite (13 / 2)) (Finite 2023) example_fetcher) = Inr ()
   \<and> in_range 1 12 (month (snd (setDate (Finite 15) (Finite (13 / 2)) (Finite 2023)
        example_fetcher)))
   \<and> Array_get monthNames (number_minus (month (snd (setDate (Finite 15) (Finite (13 / 2))
        (Finite 2023) example_fetcher))) (Finite 1)) = None
   \<and> createUrl example_print (snd (setDate (Finite 15) (Finite (13 / 2)) (Finite 2023)
        example_fetcher))
     = ''https://api.news.com/undefined-2023/15-6.5-2023.json''
   \<and> createUrl example_print (NewsFetcher_new ''March'' (Finite 1) (Finite 13) (Finite 2024))
     = ''March/undefined-2024/01-13-2024.json''
   \<and> String_includes
        (createUrl example_print (NewsFetcher_new ''March'' (Finite 1) (Finite 13) (Finite 2024)))
        ''March''"
proof -
  have s: "setDate (Finite 15) (Finite (13 / 2)) (Finite 2023) example_fetcher
      = (Inr (), NewsFetcher_new ''https://api.news.com'' (Finite 15) (Finite (13 / 2))
                   (Finite 2023))"
    by (simp add: setDate_def number_gt_def example_fetcher_def NewsFetcher_new_def)
  have u: "createUrl example_print (NewsFetcher_new ''March'' (Finite 1) (Finite 13) (Finite 2024))
     = ''March/undefined-2024/01-13-2024.json''"
    by (simp add: createUrl_def NewsFetcher_new_def Array_get_def is_integer_def monthNames_def
        template_string_def padStart_def Number_toString_def isSafeInteger_def decimal_def
        nat_digits.simps digit_char_def)
  show ?thesis
    unfolding s u
    by (simp add: createUrl_def NewsFetcher_new_def Array_get_def is_integer_def monthNames_def
        template_string_def padStart_def Number_toString_def isSafeInteger_def decimal_def
        nat_digits.simps digit_char_def example_print_def floor_rat_divide_numeral in_range_def)
qed

subsection \<open>Sets, maps and sorting\<close>

lemma count_list_map_filter:
  "count_list (map f xs) y = length (filter (\<lambda>x. f x = y) xs)"
  by (induction xs) auto

lemma set_first_seen [simp]: "set (first_seen xs) = set xs"
  by (induction xs) auto

lemma distinct_first_seen [simp]: "distinct (first_seen xs)"
  by (induction xs) auto

lemma length_first_seen: "length (first_seen xs) \<le> length xs"
proof (induction xs)
  case Nil
  then show ?case by simp
next
  case (Cons x xs)
  have "length (filter (\<lambda>y. y \<noteq> x) (first_seen xs)) \<le> length (first_seen xs)"
    by (rule length_filter_le)
  then have "length (filter (\<lambda>y. y \<noteq> x) (first_seen xs)) \<le> length xs"
    using Cons.IH by (rule order_trans)
  then show ?case by simp
qed

lemma foldl_Set_add:
  "foldl (\<lambda>s x. Set_add x s) acc xs = acc @ filter (\<lambda>y. y \<notin> set acc) (first_seen xs)"
proof (induction xs arbitrary: acc)
  case Nil
  then show ?case by simp
next
  case (Cons x xs)
  show ?case
  proof (cases "x \<in> set acc")
    case True
    then have "filter (\<lambda>y. y \<notin> set acc) (filter (\<lambda>y. y \<noteq> x) (first_seen xs))
        = filter (\<lambda>y. y \<notin> set acc) (first_seen xs)"
      by (auto intro: filter_cong)
    moreover have "Set_add x acc = acc" using True by (simp add: Set_add_def)
    ultimately show ?thesis using True by (simp add: Cons.IH)
  next
    case False
    have "filter (\<lambda>y. y \<notin> set (acc @ [x])) (first_seen xs)
        = filter (\<lambda>y. y \<notin> set acc) (filter (\<lambda>y. y \<noteq> x) (first_seen xs))"
      by (auto intro: filter_cong)
    moreover have "Set_add x acc = acc @ [x]" using False by (simp add: Set_add_def)
    ultimately show ?thesis using False by (simp add: Cons.IH)
  qed
qed

lemma Set_new_first_seen: "Set_new xs = first_seen xs"
  by (simp add: Set_new_def foldl_Set_add)

lemma or_zero_eq: "or_zero v = (case v of None \<Rightarrow> 0 | Some n \<Rightarrow> n)"
  by (simp add: or_zero_def split: option.splits)

lemma keys_count_key: "map fst (count_key m k) = Set_add k (map fst m)"
  by (simp add: count_key_def Map_set_def update_keys Set_add_def)

lemma keys_foldl_count_key:
  "map fst (foldl count_key m ks) = foldl (\<lambda>s x. Set_add x s) (map fst m) ks"
  by (induction ks arbitrary: m) (simp_all add: keys_count_key)

lemma get_count_key:
  "Map_get (count_key m k) k' =
     (if k' = k then Some (or_zero (Map_get m k) + 1) else Map_get m k')"
  by (simp add: count_key_def Map_set_def Map_get_def update_conv')

lemma get_foldl_count_key:
  "or_zero (Map_get (foldl count_key m ks) k) = or_zero (Map_get m k) + int (count_list ks k)"
  by (induction ks arbitrary: m) (simp_all add: get_count_key or_zero_eq)

lemma distinct_keys_count_key:
  "distinct (map fst m) \<Longrightarrow> distinct (map fst (count_key m k))"
  by (simp add: count_key_def Map_set_def distinct_update)

lemma distinct_keys_foldl_count_key:
  "distinct (map fst m) \<Longrightarrow> distinct (map fst (foldl count_key m ks))"
  by (induction ks arbitrary: m) (simp_all add: distinct_keys_count_key)

lemma count_entries:
  "foldl count_key [] ks = map (\<lambda>k. (k, int (count_list ks k))) (first_seen ks)"
proof -
  let ?m = "foldl count_key [] ks"
  have keys: "map fst ?m = first_seen ks"
    by (simp add: keys_foldl_count_key foldl_Set_add)
  have d: "distinct (map fst ?m)"
    by (rule distinct_keys_foldl_count_key) simp
  have v: "snd p = int (count_list ks (fst p))" if "p \<in> set ?m" for p
  proof -
    from that d have "map_of ?m (fst p) = Some (snd p)" by simp
    then have "or_zero (Map_get ?m (fst p)) = snd p" by (simp add: Map_get_def or_zero_eq)
    then show ?thesis using get_foldl_count_key[of "[]" ks "fst p"]
      by (simp add: Map_get_def or_zero_eq)
  qed
  have "?m = map (\<lambda>p. (fst p, snd p)) ?m" by simp
  also have "\<dots> = map (\<lambda>p. (fst p, int (count_list ks (fst p)))) ?m"
    using v by (intro map_cong) simp_all
  also have "\<dots> = map (\<lambda>k. (k, int (count_list ks k))) (map fst ?m)"
    by (simp add: comp_def)
  finally show ?thesis unfolding keys .
qed

lemma sort_insert_insort_key:
  assumes "\<And>y. y \<in> set ys \<Longrightarrow> (cmp x y \<le> 0) = (f x \<le> f y)"
  shows "sort_insert cmp x ys = insort_key f x ys"
  using assms by (induction ys) simp_all

lemma Array_sort_sort_key:
  fixes f :: "'a \<Rightarrow> 'b::linorder"
  assumes "\<And>x y. x \<in> set xs \<Longrightarrow> y \<in> set xs \<Longrightarrow> (cmp x y \<le> 0) = (f x \<le> f y)"
  shows "Array_sort cmp xs = sort_key f xs"
  using assms
proof (induction xs)
  case Nil
  then show ?case by (simp add: Array_sort_def)
next
  case (Cons x xs)
  have IH: "Array_sort cmp xs = sort_key f xs"
    by (rule Cons.IH) (simp add: Cons.prems)
  have "sort_insert cmp x (sort_key f xs) = insort_key f x (sort_key f xs)"
    by (rule sort_insert_insort_key) (simp add: Cons.prems)
  then show ?case using IH by (simp add: Array_sort_def)
qed

lemma Array_sort_by_count:
  "Array_sort (\<lambda>a b. snd b - snd a) (xs :: ('k \<times> int) list) = sort_key (\<lambda>p. - snd p) xs"
  by (rule Array_sort_sort_key) auto

lemma sort_key_map: "sort_key f (map g xs) = map g (sort_key (\<lambda>x. f (g x)) xs)"
proof (induction xs)
  case Nil
  then show ?case by simp
next
  case (Cons x xs)
  have "insort_key f (g x) (map g ys) = map g (insort_key (\<lambda>x. f (g x)) x ys)" for ys
    by (induction ys) simp_all
  then show ?case by (simp add: Cons.IH)
qed

lemma sorted_entries:
  "map fst (Array_sort (\<lambda>a b. snd b - snd a) (foldl count_key [] ks))
     = sort_key (\<lambda>k. - int (count_list ks k)) (first_seen ks)"
  by (simp add: Array_sort_by_count count_entries sort_key_map comp_def)

lemma foldl_nested:
  "foldl (\<lambda>m x. foldl f m (g x)) m xs = foldl f m (concat (map g xs))"
  by (induction xs arbitrary: m) simp_all


subsection \<open>The order of a sorted list\<close>

text \<open>\<open>precedes\<close> in terms of positions.\<close>

lemma precedes_nth:
  "precedes xs a b \<longleftrightarrow> (\<exists>i j. i < j \<and> j < length xs \<and> xs ! i = a \<and> xs ! j = b)"
proof (induction xs)
  case Nil
  then show ?case by simp
next
  case (Cons x xs)
  show ?case
  proof
    assume "precedes (x # xs) a b"
    then consider "x = a" "b \<in> set xs" | "precedes xs a b" by auto
    then show "\<exists>i j. i < j \<and> j < length (x # xs) \<and> (x # xs) ! i = a \<and> (x # xs) ! j = b"
    proof cases
      case 1
      then obtain k where "k < length xs" "xs ! k = b" by (auto simp: in_set_conv_nth)
      with 1 have "0 < Suc k \<and> Suc k < length (x # xs) \<and> (x # xs) ! 0 = a \<and> (x # xs) ! Suc k = b"
        by simp
      then show ?thesis by blast
    next
      case 2
      with Cons.IH obtain i j where "i < j" "j < length xs" "xs ! i = a" "xs ! j = b" by blast
      then have "Suc i < Suc j \<and> Suc j < length (x # xs) \<and> (x # xs) ! Suc i = a \<and> (x # xs) ! Suc j = b"
        by simp
      then show ?thesis by blast
    qed
  next
    assume "\<exists>i j. i < j \<and> j < length (x # xs) \<and> (x # xs) ! i = a \<and> (x # xs) ! j = b"
    then obtain i j where ij: "i < j" "j < length (x # xs)" "(x # xs) ! i = a" "(x # xs) ! j = b"
      by blast
    then obtain j' where j': "j = Suc j'" by (cases j) simp_all
    show "precedes (x # xs) a b"
    proof (cases i)
      case 0
      with ij j' have "x = a" "b \<in> set xs" by auto
      then show ?thesis by simp
    next
      case (Suc i')
      with ij j' have "i' < j' \<and> j' < length xs \<and> xs ! i' = a \<and> xs ! j' = b" by simp
      with Cons.IH have "precedes xs a b" by blast
      then show ?thesis by simp
    qed
  qed
qed

lemma precedes_filter:
  "P a \<Longrightarrow> P b \<Longrightarrow> precedes (filter P xs) a b = precedes xs a b"
  by (induction xs) auto

lemma precedes_sort_key_tie:
  assumes "f a = f b"
  shows "precedes (sort_key f xs) a b = precedes xs a b"
proof -
  have "precedes (sort_key f xs) a b = precedes (filter (\<lambda>y. f y = f a) (sort_key f xs)) a b"
    using assms by (simp add: precedes_filter)
  also have "\<dots> = precedes (filter (\<lambda>y. f y = f a) xs) a b"
    by (simp only: sort_key_stable)
  also have "\<dots> = precedes xs a b"
    using assms by (simp add: precedes_filter)
  finally show ?thesis .
qed

lemma precedes_sorted:
  fixes f :: "'a \<Rightarrow> 'b::linorder"
  assumes "sorted (map f ys)" "a \<in> set ys" "b \<in> set ys" "f a < f b"
  shows "precedes ys a b"
  using assms
proof (induction ys)
  case Nil
  then show ?case by simp
next
  case (Cons y ys)
  show ?case
  proof (cases "y = a")
    case True
    with Cons.prems have "b \<in> set ys" by auto
    with True show ?thesis by simp
  next
    case False
    with Cons.prems have a: "a \<in> set ys" by simp
    have "b \<noteq> y"
    proof
      assume "b = y"
      with Cons.prems(1) a have "f b \<le> f a" by auto
      with Cons.prems(4) show False by simp
    qed
    with Cons.prems have "b \<in> set ys" by simp
    with Cons a have "precedes ys a b" by simp
    then show ?thesis by simp
  qed
qed

lemma first_index_Cons:
  "first_index (x # xs) a = (if x = a then 0 else Suc (first_index xs a))"
  by (simp add: first_index_def)

lemma precedes_first_seen:
  assumes "a \<in> set xs" "b \<in> set xs" "first_index xs a < first_index xs b"
  shows "precedes (first_seen xs) a b"
  using assms
proof (induction xs)
  case Nil
  then show ?case by simp
next
  case (Cons x xs)
  show ?case
  proof (cases "x = a")
    case True
    with Cons.prems(3) have "x \<noteq> b" by (auto simp: first_index_Cons)
    with Cons.prems(2) True show ?thesis by simp
  next
    case False
    with Cons.prems(3) have xb: "x \<noteq> b" by (auto simp: first_index_Cons split: if_splits)
    from False xb Cons.prems have "precedes (first_seen xs) a b"
      by (intro Cons.IH) (auto simp: first_index_Cons)
    then have "precedes (filter (\<lambda>y. y \<noteq> x) (first_seen xs)) a b"
      using False xb by (subst precedes_filter) auto
    then show ?thesis by simp
  qed
qed

subsection \<open>Slices\<close>

lemma Array_sort_Nil: "Array_sort cmp [] = []"
  by (simp add: Array_sort_def)

lemma Array_slice_Nil: "Array_slice [] s e = []"
  by (simp add: Array_slice_def)

lemma Array_slice_0:
  "Array_slice xs 0 l = (if l < 0 then take (length xs - nat (- l)) xs else take (nat l) xs)"
proof (cases "l < 0")
  case True
  then have "nat (max (int (length xs) + l) 0) = length xs - nat (- l)" by simp
  with True show ?thesis by (simp add: Array_slice_def)
next
  case False
  have "take (nat (min l (int (length xs)))) xs = take (nat l) xs"
    by (cases "l \<le> int (length xs)") (simp_all add: min_def)
  with False show ?thesis by (simp add: Array_slice_def)
qed

lemma set_Array_slice: "set (Array_slice xs 0 l) \<subseteq> set xs"
  by (auto simp: Array_slice_0 dest: in_set_takeD)

lemma Array_slice_all: "int (length xs) \<le> l \<Longrightarrow> Array_slice xs 0 l = xs"
  by (simp add: Array_slice_0)

lemma distinct_Array_slice: "distinct (map f xs) \<Longrightarrow> distinct (map f (Array_slice xs 0 l))"
  by (simp add: Array_slice_0 distinct_take flip: take_map)

subsection \<open>The fetch and what the queries return\<close>

lemma fetchNewsData_state: "snd (fetchNewsData print fetch this) = this"
  by (simp add: fetchNewsData_def fetchNewsData_try_def
      split: http_response.splits option.splits)

lemma fetchNewsData_total: "\<exists>data. fetchNewsData print fetch this = (Inr data, this)"
  by (simp add: fetchNewsData_def fetchNewsData_try_def
      split: http_response.splits option.splits)

lemma fetchNewsData_fails:
  "fetch_fails print fetch this \<Longrightarrow> fetchNewsData print fetch this = (Inr [], this)"
  by (auto simp: fetch_fails_def fetchNewsData_def fetchNewsData_try_def
      split: http_response.splits option.splits)

lemma fetchNewsData_ok:
  "fetch (createUrl print this) = HttpResponse status (Some data) \<Longrightarrow> response_ok status \<Longrightarrow>
     fetchNewsData print fetch this = (Inr data, this)"
  by (simp add: fetchNewsData_def fetchNewsData_try_def)

lemma fetchNewsData_eq:
  "fst (fetchNewsData print fetch this) = Inr data \<Longrightarrow> fetchNewsData print fetch this = (Inr data, this)"
  using fetchNewsData_state[of print fetch this] by (cases "fetchNewsData print fetch this") simp

lemma ReturnAllTopics_sorted:
  assumes "fst (fetchNewsData print fetch this) = Inr data"
  shows "fst (ReturnAllTopics print fetch this) =
           Inr (sort_key (\<lambda>c. - int (count_list (concat (map (\<lambda>n. categories (item n)) data)) c))
                  (first_seen (concat (map (\<lambda>n. categories (item n)) data))))"
proof -
  from assms have f: "fetchNewsData print fetch this = (Inr data, this)" by (rule fetchNewsData_eq)
  show ?thesis
    by (simp add: ReturnAllTopics_def f foldl_nested sorted_entries)
qed


lemma ReturnAllSources_first_seen:
  assumes "fst (fetchNewsData print fetch this) = Inr data"
  shows "fst (ReturnAllSources print fetch this) = Inr (first_seen (map (\<lambda>n. source (item n)) data))"
proof -
  from assms have f: "fetchNewsData print fetch this = (Inr data, this)" by (rule fetchNewsData_eq)
  show ?thesis by (simp add: ReturnAllSources_def f Set_new_first_seen)
qed

lemma ReturnTopSources_sorted:
  assumes "fst (fetchNewsData print fetch this) = Inr data"
  shows "fst (ReturnTopSourcesByArticleCount print fetch limit this) =
      Inr (Array_slice
             (map (\<lambda>s. (s, int (count_list (map (\<lambda>n. source (item n)) data) s)))
                (sort_key (\<lambda>s. - int (count_list (map (\<lambda>n. source (item n)) data) s))
                   (first_seen (map (\<lambda>n. source (item n)) data))))
             0 (case limit of None \<Rightarrow> 5 | Some l \<Rightarrow> l))"
proof -
  from assms have f: "fetchNewsData print fetch this = (Inr data, this)" by (rule fetchNewsData_eq)
  have c: "foldl (\<lambda>m newsItem. count_key m (source (item newsItem))) [] data
      = foldl count_key [] (map (\<lambda>n. source (item n)) data)"
    by (simp add: foldl_map)
  show ?thesis
    by (simp add: ReturnTopSourcesByArticleCount_def f Let_def c Array_sort_by_count
        count_entries sort_key_map comp_def)
qed

subsection \<open>The example feed\<close>

lemma createUrl_example:
  "createUrl print example_fetcher = ''https://api.news.com/November-2024/12-11-2024.json''"
  by (simp add: example_fetcher_def NewsFetcher_new_def createUrl_def Array_get_def
      is_integer_def monthNames_def template_string_def padStart_def Number_toString_def
      isSafeInteger_def decimal_def nat_digits.simps digit_char_def)

lemma fetch_example:
  "fst (fetchNewsData print example_network example_fetcher) = Inr example_data"
  by (simp add: fetchNewsData_def fetchNewsData_try_def createUrl_example example_network_def
      response_ok_def)

lemma example_fields:
  "categories (item example_h1) = [''Sports'', ''World'']"
  "categories (item example_h2) = [''Motorsports'', ''World'']"
  "categories (item example_h3) = [''politics'', ''SPORTS'', ''World'']"
  "source (item example_h1) = ''Reuters''"
  "source (item example_h2) = ''reuters''"
  "source (item example_h3) = ''BBC''"
  "published (item example_h1) = ''2024-11-12T01:00:00.000Z''"
  "published (item example_h2) = ''2024-11-12T03:00:00.000Z''"
  "published (item example_h3) = ''2024-11-12T02:00:00.000Z''"
  by (simp_all add: example_h1_def example_h2_def example_h3_def example_item_def)


subsection \<open>The queries\<close>

text \<open>
  Claim C4. When the fetch fails (the request fails, the status is not 2xx, or the body
  does not decode), each of the ten queries returns the empty array and does not throw:
  its result is \<open>Inr []\<close>, whatever its arguments are.
\<close>

theorem queries_empty_on_fetch_failure:
  assumes "fetch_fails print fetch this"
  shows "fst (ReturnAllSources print fetch this) = Inr []
    \<and> fst (ReturnAllTopics print fetch this) = Inr []
    \<and> fst (ReturnNewsWithATopic print fetch category this) = Inr []
    \<and> fst (ReturnNewsFromSource print fetch src this) = Inr []
    \<and> fst (SearchNewsByKeyword print fetch keyword this) = Inr []
    \<and> fst (ReturnNewsByAuthor print fetch authorName this) = Inr []
    \<and> fst (ReturnLatestNews print fetch Date_new limit this) = Inr []
    \<and> fst (ReturnNewsInDateRange print fetch Date_new startDate endDate this) = Inr []
    \<and> fst (ReturnNewsWithMultipleCategories print fetch cats this) = Inr []
    \<and> fst (ReturnTopSourcesByArticleCount print fetch limit' this) = Inr []"
proof -
  note f = fetchNewsData_fails[OF assms]
  have "fst (ReturnAllSources print fetch this) = Inr []"
    by (simp add: ReturnAllSources_def f Set_new_def)
  moreover have "fst (ReturnAllTopics print fetch this) = Inr []"
    by (simp add: ReturnAllTopics_def f Array_sort_Nil)
  moreover have "fst (ReturnNewsWithATopic print fetch category this) = Inr []"
    by (simp add: ReturnNewsWithATopic_def f)
  moreover have "fst (ReturnNewsFromSource print fetch src this) = Inr []"
    by (simp add: ReturnNewsFromSource_def f)
  moreover have "fst (SearchNewsByKeyword print fetch keyword this) = Inr []"
    by (simp add: SearchNewsByKeyword_def f)
  moreover have "fst (ReturnNewsByAuthor print fetch authorName this) = Inr []"
    by (simp add: ReturnNewsByAuthor_def f)
  moreover have "fst (ReturnLatestNews print fetch Date_new limit this) = Inr []"
    by (simp add: ReturnLatestNews_def f Array_sort_Nil Array_slice_Nil)
  moreover have "fst (ReturnNewsInDateRange print fetch Date_new startDate endDate this) = Inr []"
    by (simp add: ReturnNewsInDateRange_def f)
  moreover have "fst (ReturnNewsWithMultipleCategories print fetch cats this) = Inr []"
    by (simp add: ReturnNewsWithMultipleCategories_def f)
  moreover have "fst (ReturnTopSourcesByArticleCount print fetch limit' this) = Inr []"
    by (simp add: ReturnTopSourcesByArticleCount_def f Array_sort_Nil Array_slice_Nil)
  ultimately show ?thesis by blast
qed

theorem queries_empty_on_fetch_failure_witness:
  "fst (ReturnAllSources example_print (\<lambda>u. HttpResponse 500 (Some example_data)) example_fetcher) = Inr []
   \<and> fst (ReturnAllTopics example_print (\<lambda>u. HttpResponse 500 (Some example_data)) example_fetcher) = Inr []
   \<and> fst (ReturnNewsWithATopic example_print (\<lambda>u. HttpResponse 500 (Some example_data)) ''sports''
        example_fetcher) = Inr []
   \<and> fst (ReturnLatestNews example_print (\<lambda>u. HttpResponse 200 None) example_Date_new (Some 2)
        example_fetcher) = Inr []
   \<and> fst (ReturnTopSourcesByArticleCount example_print (\<lambda>u. NetworkError) None example_fetcher) = Inr []"
  using
    queries_empty_on_fetch_failure
      [where print = example_print and fetch = "\<lambda>u. HttpResponse 500 (Some example_data)" and this = example_fetcher
      and category = "''sports''" and Date_new = example_Date_new and limit = "Some 2"
      and limit' = None]
    queries_empty_on_fetch_failure
      [where print = example_print and fetch = "\<lambda>u. HttpResponse 200 None" and this = example_fetcher
      and category = "''sports''" and Date_new = example_Date_new and limit = "Some 2"
      and limit' = None]
    queries_empty_on_fetch_failure
      [where print = example_print and fetch = "\<lambda>u. NetworkError" and this = example_fetcher
      and category = "''sports''" and Date_new = example_Date_new and limit = "Some 2"
      and limit' = None]
  by (simp add: fetch_fails_def response_ok_def)

text \<open>
  Claim C5. Let \<open>cats\<close> be the categories of the fetched items, item after item in
  fetched order. \<open>ReturnAllTopics\<close> returns a list \<open>topics\<close> without duplicates whose
  members are those of \<open>cats\<close>, in non-increasing order of their number of occurrences
  in \<open>cats\<close>: a category that occurs strictly more often than another one precedes it,
  and of two categories that occur equally often the one first met in \<open>cats\<close> precedes
  the other.
\<close>

theorem ReturnAllTopics_order:
  assumes "fst (fetchNewsData print fetch this) = Inr data"
    and "cats = concat (map (\<lambda>newsItem. categories (item newsItem)) data)"
  shows "\<exists>topics. fst (ReturnAllTopics print fetch this) = Inr topics
     \<and> distinct topics \<and> set topics = set cats
     \<and> sorted_wrt (\<lambda>a b. count_list cats a \<ge> count_list cats b) topics
     \<and> (\<forall>a \<in> set cats. \<forall>b \<in> set cats.
           count_list cats a > count_list cats b \<longrightarrow> precedes topics a b)
     \<and> (\<forall>a \<in> set cats. \<forall>b \<in> set cats.
           count_list cats a = count_list cats b \<and> first_index cats a < first_index cats b
             \<longrightarrow> precedes topics a b)"
proof -
  let ?f = "\<lambda>c. - int (count_list cats c)"
  let ?t = "sort_key ?f (first_seen cats)"
  have r: "fst (ReturnAllTopics print fetch this) = Inr ?t"
    using ReturnAllTopics_sorted[OF assms(1)] unfolding assms(2) .
  have d: "distinct ?t" "set ?t = set cats" by simp_all
  have s: "sorted (map ?f ?t)" by (rule sorted_sort_key)
  then have s': "sorted_wrt (\<lambda>a b. count_list cats a \<ge> count_list cats b) ?t"
    by (simp add: sorted_map)
  have gt: "precedes ?t a b"
    if "a \<in> set cats" "b \<in> set cats" "count_list cats a > count_list cats b" for a b
    using s that by (intro precedes_sorted[where f = ?f]) simp_all
  have tie: "precedes ?t a b"
    if "a \<in> set cats" "b \<in> set cats" "count_list cats a = count_list cats b"
      "first_index cats a < first_index cats b" for a b
  proof -
    have "precedes (first_seen cats) a b" using that by (intro precedes_first_seen)
    moreover have "?f a = ?f b" using that by simp
    ultimately show ?thesis by (simp add: precedes_sort_key_tie)
  qed
  show ?thesis using r d s' gt tie by blast
qed

theorem ReturnAllTopics_order_witness:
  "\<exists>topics. fst (ReturnAllTopics example_print example_network example_fetcher) = Inr topics
     \<and> distinct topics
     \<and> set topics = {''World'', ''Sports'', ''Motorsports'', ''politics'', ''SPORTS''}
     \<and> precedes topics ''World'' ''Sports''
     \<and> precedes topics ''Sports'' ''Motorsports''"
proof -
  let ?cats = "[''Sports'', ''World'', ''Motorsports'', ''World'', ''politics'', ''SPORTS'', ''World'']"
  have cats: "?cats = concat (map (\<lambda>newsItem. categories (item newsItem)) example_data)"
    by (simp add: example_data_def example_fields)
  from ReturnAllTopics_order [OF fetch_example [of example_print] cats]
  obtain topics where r: "fst (ReturnAllTopics example_print example_network example_fetcher) = Inr topics"
    and d: "distinct topics" and s: "set topics = set ?cats"
    and gt: "\<forall>a \<in> set ?cats. \<forall>b \<in> set ?cats.
           count_list ?cats a > count_list ?cats b \<longrightarrow> precedes topics a b"
    and tie: "\<forall>a \<in> set ?cats. \<forall>b \<in> set ?cats.
           count_list ?cats a = count_list ?cats b \<and> first_index ?cats a < first_index ?cats b
             \<longrightarrow> precedes topics a b"
    by (elim exE conjE)
  have "precedes topics ''World'' ''Sports''"
    by (rule gt [rule_format, of "''World''" "''Sports''"]) simp_all
  moreover have "precedes topics ''Sports'' ''Motorsports''"
    by (rule tie [rule_format, of "''Sports''" "''Motorsports''"]) (simp_all add: first_index_def)
  moreover have "set ?cats = {''World'', ''Sports'', ''Motorsports'', ''politics'', ''SPORTS''}"
    by auto
  ultimately show ?thesis using r d s by (intro exI[where x = topics]) simp
qed

text \<open>
  Claim C6. \<open>ReturnNewsWithATopic category\<close> returns, in fetched order, exactly the
  fetched items one of whose categories equals \<open>category\<close> once both are in lower case:
  equality of the two strings, not containment. Two arguments with the same lower-case
  form give the same result, and so do \<open>Sports\<close> and \<open>sports\<close>.
\<close>

theorem ReturnNewsWithATopic_exact_match:
  "(fst (fetchNewsData print fetch this) = Inr data \<longrightarrow>
      fst (ReturnNewsWithATopic print fetch category this) =
        Inr (filter (\<lambda>newsItem. \<exists>cat \<in> set (categories (item newsItem)).
                       toLowerCase cat = toLowerCase category) data))
   \<and> (toLowerCase category = toLowerCase category' \<longrightarrow>
        ReturnNewsWithATopic print fetch category this = ReturnNewsWithATopic print fetch category' this)
   \<and> ReturnNewsWithATopic print fetch ''Sports'' this = ReturnNewsWithATopic print fetch ''sports'' this"
proof (intro conjI impI)
  assume "fst (fetchNewsData print fetch this) = Inr data"
  then have f: "fetchNewsData print fetch this = (Inr data, this)" by (rule fetchNewsData_eq)
  show "fst (ReturnNewsWithATopic print fetch category this) =
        Inr (filter (\<lambda>newsItem. \<exists>cat \<in> set (categories (item newsItem)).
                       toLowerCase cat = toLowerCase category) data)"
    by (simp add: ReturnNewsWithATopic_def f list_ex_iff)
next
  assume "toLowerCase category = toLowerCase category'"
  then show "ReturnNewsWithATopic print fetch category this = ReturnNewsWithATopic print fetch category' this"
    unfolding ReturnNewsWithATopic_def by (simp only:)
next
  have "toLowerCase ''Sports'' = toLowerCase ''sports''"
    by (simp add: lower_defs)
  then show "ReturnNewsWithATopic print fetch ''Sports'' this = ReturnNewsWithATopic print fetch ''sports'' this"
    unfolding ReturnNewsWithATopic_def by (simp only:)
qed

theorem ReturnNewsWithATopic_exact_match_witness:
  "fst (ReturnNewsWithATopic example_print example_network ''sports'' example_fetcher)
     = Inr [example_h1, example_h3]
   \<and> fst (ReturnNewsWithATopic example_print example_network ''Sports'' example_fetcher)
     = Inr [example_h1, example_h3]
   \<and> fst (ReturnNewsWithATopic example_print
        (\<lambda>u. HttpResponse 200
           (Some [example_item ''h4'' ''AFP'' [CHR 0xC9 # ''cole''] ''2024-11-12T04:00:00.000Z'']))
        (CHR 0xE9 # ''cole'') example_fetcher)
     = Inr [example_item ''h4'' ''AFP'' [CHR 0xC9 # ''cole''] ''2024-11-12T04:00:00.000Z'']"
proof -
  have l: "toLowerCase ''sports'' = ''sports''" "toLowerCase ''Sports'' = ''sports''"
    "toLowerCase ''World'' = ''world''" "toLowerCase ''Motorsports'' = ''motorsports''"
    "toLowerCase ''politics'' = ''politics''" "toLowerCase ''SPORTS'' = ''sports''"
    "toLowerCase (CHR 0xC9 # ''cole'') = CHR 0xE9 # ''cole''"
    "toLowerCase (CHR 0xE9 # ''cole'') = CHR 0xE9 # ''cole''"
    by (simp_all add: lower_defs)
  note c = ReturnNewsWithATopic_exact_match
    [of example_print example_network example_fetcher example_data "''sports''" "''Sports''"]
  note c1 = c [THEN conjunct1, rule_format, OF fetch_example [of example_print]]
  note c3 = c [THEN conjunct2, THEN conjunct2]
  have r: "fst (ReturnNewsWithATopic example_print example_network ''sports'' example_fetcher)
     = Inr [example_h1, example_h3]"
    unfolding c1 by (simp add: example_data_def example_fields l)
  let ?net = "\<lambda>u::string. HttpResponse 200
           (Some [example_item ''h4'' ''AFP'' [CHR 0xC9 # ''cole''] ''2024-11-12T04:00:00.000Z''])"
  have f: "fst (fetchNewsData example_print ?net example_fetcher)
      = Inr [example_item ''h4'' ''AFP'' [CHR 0xC9 # ''cole''] ''2024-11-12T04:00:00.000Z'']"
    by (simp add: fetchNewsData_def fetchNewsData_try_def response_ok_def)
  note e = ReturnNewsWithATopic_exact_match
    [of example_print ?net example_fetcher _ "CHR 0xE9 # ''cole''" "CHR 0xE9 # ''cole''",
      THEN conjunct1, rule_format, OF f]
  have r': "fst (ReturnNewsWithATopic example_print ?net (CHR 0xE9 # ''cole'') example_fetcher)
     = Inr [example_item ''h4'' ''AFP'' [CHR 0xC9 # ''cole''] ''2024-11-12T04:00:00.000Z'']"
    unfolding e by (simp add: example_item_def l)
  show ?thesis unfolding c3 using r r' by simp
qed




text \<open>
  Claim C8. No query changes the instance: after each of the ten queries the instance,
  with its fields \<open>baseUrl\<close>, \<open>date\<close>, \<open>month\<close> and \<open>year\<close>, is the one the query was
  called on.
\<close>

theorem queries_keep_instance:
  "snd (ReturnAllSources print fetch this) = this
    \<and> snd (ReturnAllTopics print fetch this) = this
    \<and> snd (ReturnNewsWithATopic print fetch category this) = this
    \<and> snd (ReturnNewsFromSource print fetch src this) = this
    \<and> snd (SearchNewsByKeyword print fetch keyword this) = this
    \<and> snd (ReturnNewsByAuthor print fetch authorName this) = this
    \<and> snd (ReturnLatestNews print fetch Date_new limit this) = this
    \<and> snd (ReturnNewsInDateRange print fetch Date_new startDate endDate this) = this
    \<and> snd (ReturnNewsWithMultipleCategories print fetch cats this) = this
    \<and> snd (ReturnTopSourcesByArticleCount print fetch limit' this) = this"
proof -
  obtain data where f: "fetchNewsData print fetch this = (Inr data, this)"
    using fetchNewsData_total by blast
  have "snd (ReturnAllSources print fetch this) = this"
    by (simp add: ReturnAllSources_def f Let_def)
  moreover have "snd (ReturnAllTopics print fetch this) = this"
    by (simp add: ReturnAllTopics_def f Let_def)
  moreover have "snd (ReturnNewsWithATopic print fetch category this) = this"
    by (simp add: ReturnNewsWithATopic_def f)
  moreover have "snd (ReturnNewsFromSource print fetch src this) = this"
    by (simp add: ReturnNewsFromSource_def f)
  moreover have "snd (SearchNewsByKeyword print fetch keyword this) = this"
    by (simp add: SearchNewsByKeyword_def f Let_def)
  moreover have "snd (ReturnNewsByAuthor print fetch authorName this) = this"
    by (simp add: ReturnNewsByAuthor_def f Let_def)
  moreover have "snd (ReturnLatestNews print fetch Date_new limit this) = this"
    by (simp add: ReturnLatestNews_def f Let_def)
  moreover have "snd (ReturnNewsInDateRange print fetch Date_new startDate endDate this) = this"
    by (simp add: ReturnNewsInDateRange_def f)
  moreover have "snd (ReturnNewsWithMultipleCategories print fetch cats this) = this"
    by (simp add: ReturnNewsWithMultipleCategories_def f Let_def)
  moreover have "snd (ReturnTopSourcesByArticleCount print fetch limit' this) = this"
    by (simp add: ReturnTopSourcesByArticleCount_def f Let_def)
  ultimately show ?thesis by blast
qed

text \<open>
  Claim C9. Sources are collected and counted by equality of strings, with no change of
  case. Let \<open>srcs\<close> be the \<open>source\<close> values of the fetched items in fetched order.
  \<open>ReturnAllSources\<close> returns the members of \<open>srcs\<close> in the order of their first
  occurrence, each once, so that two items whose sources differ, even in letter case
  only, contribute two entries. Let \<open>counted\<close> pair each of these sources with the
  number of fetched items whose \<open>source\<close> is that very string, in descending order of
  that number and, for equal numbers, in the order of first occurrence.
  \<open>ReturnTopSourcesByArticleCount limit\<close> returns the first \<open>limit\<close> entries of
  \<open>counted\<close> when \<open>limit \<ge> 0\<close>, all but the last \<open>- limit\<close> entries when \<open>limit < 0\<close>,
  and the first five when the limit is left out.
\<close>

theorem sources_case_sensitive:
  assumes "fst (fetchNewsData print fetch this) = Inr data"
    and "srcs = map (\<lambda>newsItem. source (item newsItem)) data"
    and "counted = map (\<lambda>s. (s, int (count_list srcs s)))
                     (sort_key (\<lambda>s. - int (count_list srcs s)) (first_seen srcs))"
  shows "fst (ReturnAllSources print fetch this) = Inr (first_seen srcs)
    \<and> distinct (first_seen srcs) \<and> set (first_seen srcs) = set srcs
    \<and> (\<forall>x \<in> set data. \<forall>y \<in> set data.
          source (item x) \<noteq> source (item y)
          \<and> toLowerCase (source (item x)) = toLowerCase (source (item y)) \<longrightarrow>
            source (item x) \<in> set (first_seen srcs) \<and> source (item y) \<in> set (first_seen srcs))
    \<and> (0 \<le> l \<longrightarrow> fst (ReturnTopSourcesByArticleCount print fetch (Some l) this)
                      = Inr (take (nat l) counted))
    \<and> (l < 0 \<longrightarrow> fst (ReturnTopSourcesByArticleCount print fetch (Some l) this)
                      = Inr (take (length counted - nat (- l)) counted))
    \<and> fst (ReturnTopSourcesByArticleCount print fetch None this) = Inr (take 5 counted)
    \<and> distinct (map fst counted) \<and> set (map fst counted) = set srcs
    \<and> (\<forall>e \<in> set counted.
          snd e = int (length (filter (\<lambda>newsItem. source (item newsItem) = fst e) data)))"
proof -
  let ?g = "\<lambda>s. (s, int (count_list srcs s))"
  let ?S = "sort_key (\<lambda>s. - int (count_list srcs s)) (first_seen srcs)"
  have a: "fst (ReturnAllSources print fetch this) = Inr (first_seen srcs)"
    using ReturnAllSources_first_seen[OF assms(1)] unfolding assms(2) .
  have t: "fst (ReturnTopSourcesByArticleCount print fetch limit this)
        = Inr (Array_slice counted 0 (case limit of None \<Rightarrow> 5 | Some l \<Rightarrow> l))" for limit
    using ReturnTopSources_sorted[OF assms(1), of limit] unfolding assms(2) assms(3) .
  have d: "distinct (first_seen srcs)" "set (first_seen srcs) = set srcs" by simp_all
  have both: "\<forall>x \<in> set data. \<forall>y \<in> set data.
          source (item x) \<noteq> source (item y)
          \<and> toLowerCase (source (item x)) = toLowerCase (source (item y)) \<longrightarrow>
            source (item x) \<in> set (first_seen srcs) \<and> source (item y) \<in> set (first_seen srcs)"
    by (simp add: assms(2))
  have keys: "map fst counted = ?S" by (simp add: assms(3) comp_def)
  have dk: "distinct (map fst counted)" "set (map fst counted) = set srcs"
    unfolding keys by simp_all
  have t1: "fst (ReturnTopSourcesByArticleCount print fetch (Some l) this)
        = Inr (take (nat l) counted)" if "0 \<le> l"
    using that by (simp add: t Array_slice_0)
  have t2: "fst (ReturnTopSourcesByArticleCount print fetch (Some l) this)
        = Inr (take (length counted - nat (- l)) counted)" if "l < 0"
    using that by (simp add: t Array_slice_0)
  have t3: "fst (ReturnTopSourcesByArticleCount print fetch None this) = Inr (take 5 counted)"
    by (simp add: t Array_slice_0)
  have e: "\<forall>e \<in> set counted.
          snd e = int (length (filter (\<lambda>newsItem. source (item newsItem) = fst e) data))"
    unfolding assms(3) by (auto simp: assms(2) count_list_map_filter)
  show ?thesis
    using a d both t1 t2 t3 dk e by (intro conjI impI) simp_all
qed

theorem sources_case_sensitive_witness:
  "fst (ReturnAllSources example_print example_network example_fetcher)
     = Inr [''Reuters'', ''reuters'', ''BBC'']
   \<and> fst (ReturnTopSourcesByArticleCount example_print example_network None example_fetcher)
     = Inr [(''Reuters'', 1), (''reuters'', 1), (''BBC'', 1)]
   \<and> fst (ReturnTopSourcesByArticleCount example_print example_network (Some 1) example_fetcher)
     = Inr [(''Reuters'', 1)]
   \<and> toLowerCase ''Reuters'' = toLowerCase ''reuters''"
proof -
  let ?srcs = "[''Reuters'', ''reuters'', ''BBC'']"
  have srcs: "?srcs = map (\<lambda>newsItem. source (item newsItem)) example_data"
    by (simp add: example_data_def example_fields)
  have counted: "[(''Reuters'', 1), (''reuters'', 1), (''BBC'', 1)]
      = map (\<lambda>s. (s, int (count_list ?srcs s)))
          (sort_key (\<lambda>s. - int (count_list ?srcs s)) (first_seen ?srcs))"
    by simp
  have l: "toLowerCase ''Reuters'' = toLowerCase ''reuters''"
    by (simp add: lower_defs)
  have fs: "first_seen ?srcs = ?srcs" by simp
  show ?thesis
    using sources_case_sensitive [OF fetch_example [of example_print] srcs counted, of 1] l
    unfolding fs by simp
qed

end
